theory Spec2Isabelle
  imports Main "HOL-Library.Word"
begin

unbundle bit_operations_syntax

section \<open>Errors\<close>

text \<open>
  Go's \<open>error\<close> values. \<open>ErrDevice\<close> stands for any error handed back by the device
  agent or the network (Stat, RunCommand, OpenCommand, Properties, push, forward, dial,
  read); \<open>ErrNew\<close> is \<open>errors.New\<close> with the message of the source; \<open>ErrExpectPID\<close> is
  the error built at line 252 and carries the offending line; \<open>ErrWrap\<close> is a non-nil
  \<open>errors.Wrap\<close>. A Go \<open>error\<close> that may be nil is an \<open>error option\<close>.
\<close>

datatype error =
    ErrDevice string
  | ErrEOF
  | ErrUnexpectedEOF
  | ErrNew string
  | ErrExpectPID string
  | ErrAlreadyRunning
  | ErrWrap error string
  | ErrMulti "error list"

text \<open>\<open>errors.Wrap(err, msg)\<close> returns nil when \<open>err\<close> is nil.\<close>

definition Wrap :: "error option \<Rightarrow> string \<Rightarrow> error option" where
  "Wrap err msg = (case err of None \<Rightarrow> None | Some e \<Rightarrow> Some (ErrWrap e msg))"

section \<open>Strings\<close>

text \<open>\<open>strings.Contains(s, substr)\<close>.\<close>

fun Contains :: "string \<Rightarrow> string \<Rightarrow> bool" where
  "Contains [] substr = (substr = [])"
| "Contains (c # cs) substr =
     (take (length substr) (c # cs) = substr \<or> Contains cs substr)"

text \<open>The verb \<open>%d\<close> of \<open>fmt.Sprintf\<close> on an \<open>int\<close>.\<close>

fun digits :: "nat \<Rightarrow> string" where
  "digits n =
     (if n < 10 then [''0123456789'' ! n]
      else digits (n div 10) @ [''0123456789'' ! (n mod 10)])"

definition fmt_d :: "int \<Rightarrow> string" where
  "fmt_d i = (if i < 0 then ''-'' @ digits (nat (- i)) else digits (nat i))"

section \<open>The capture process supervisor (minicapDaemon)\<close>

definition QUALITY_1080P :: int where "QUALITY_1080P = 1"
definition QUALITY_720P :: int where "QUALITY_720P = 2"
definition QUALITY_480P :: int where "QUALITY_480P = 3"
definition QUALITY_240P :: int where "QUALITY_240P = 4"

text \<open>
  The device information and the daemon. The floating-point fields of \<open>minicapInfo\<close>
  and its flag \<open>Secure\<close> are parsed and never read; the daemon's channels are the
  events of the control loop below, and its \<open>port\<close> is never used.
\<close>

record minicapInfo =
  Id :: int
  Width :: int
  Height :: int
  Rotation :: int

record minicapDaemon =
  width :: int
  height :: int
  maxWidth :: int
  maxHeight :: int
  rotation :: int
  binaryPath :: string

definition newMinicapDaemon :: minicapDaemon where
  "newMinicapDaemon =
     \<lparr>width = 0, height = 0, maxWidth = 720, maxHeight = 720, rotation = 0,
      binaryPath = []\<rparr>"

text \<open>
  \<open>SetQuality\<close> (lines 183-197). Each case is the tuple assignment of the source,
  \<open>m.maxHeight, m.maxHeight = v, v\<close>: both targets are the field \<open>maxHeight\<close>. The second
  component is the value sent on \<open>rotationC\<close> at line 196, \<open>None\<close> for the default case,
  which returns before the send.
\<close>

definition SetQuality :: "int \<Rightarrow> minicapDaemon \<Rightarrow> minicapDaemon \<times> int option" where
  "SetQuality quality m =
     (if quality = QUALITY_1080P then
        (m\<lparr>maxHeight := 1080, maxHeight := 1080\<rparr>, Some (rotation m))
      else if quality = QUALITY_720P then
        (m\<lparr>maxHeight := 720, maxHeight := 720\<rparr>, Some (rotation m))
      else if quality = QUALITY_480P then
        (m\<lparr>maxHeight := 480, maxHeight := 480\<rparr>, Some (rotation m))
      else if quality = QUALITY_240P then
        (m\<lparr>maxHeight := 240, maxHeight := 240\<rparr>, Some (rotation m))
      else (m, None))"

text \<open>
  \<open>SetRotation\<close> (lines 199-204): a \<open>select\<close> between the send on \<open>rotationC\<close> and a
  100 ms timer. \<open>taken\<close> says whether the control loop took the value before the timer
  fired; the result is the value the control loop receives, if any.
\<close>

definition SetRotation :: "int \<Rightarrow> bool \<Rightarrow> int option" where
  "SetRotation r taken = (if taken then Some r else None)"

subsection \<open>Launching and watching the process (runScreenCapture)\<close>

text \<open>Lines 235-236: the parameter string and the command handed to \<open>OpenCommand\<close>.\<close>

definition launch_param :: "minicapDaemon \<Rightarrow> string" where
  "launch_param m =
     fmt_d (width m) @ ''x'' @ fmt_d (height m) @ ''@'' @
     fmt_d (maxWidth m) @ ''x'' @ fmt_d (maxHeight m) @ ''/'' @ fmt_d (rotation m)"

definition launch_command :: "minicapDaemon \<Rightarrow> string list" where
  "launch_command m =
     [''LD_LIBRARY_PATH=/data/local/tmp'', binaryPath m, ''-P'', launch_param m, ''-S'']"

text \<open>
  What \<open>OpenCommand\<close> gives: an error, or the control stream of the process. The stream
  is the list of lines that successive \<open>ReadLine\<close> calls return (an empty line is the
  empty string), followed by the error of the call that finds the stream ended.
\<close>

type_synonym control_stream = "string list \<times> error"

text \<open>Lines 255-260: read and drop lines until \<open>ReadLine\<close> fails.\<close>

fun discard_lines :: "string list \<Rightarrow> error \<Rightarrow> error" where
  "discard_lines [] e = e"
| "discard_lines (l # ls) e = discard_lines ls e"

text \<open>Lines 237-261: the result of \<open>runScreenCapture\<close> once the command is opened.\<close>

definition watch :: "error + control_stream \<Rightarrow> error option" where
  "watch opened =
     (case opened of
        Inl e \<Rightarrow> Some e
      | Inr (ls, e) \<Rightarrow>
          (case ls of
             [] \<Rightarrow> Some e
           | line # rest \<Rightarrow>
               if \<not> Contains line ''PID:'' then
                 Wrap (Some (ErrExpectPID line)) ''run minicap''
               else (let err = discard_lines rest e in Some (ErrNew ''minicap quit''))))"

definition runScreenCapture ::
  "minicapDaemon \<Rightarrow> error + control_stream \<Rightarrow> string list \<times> error option" where
  "runScreenCapture m opened = (launch_command m, watch opened)"

subsection \<open>The control loop (runScreenCaptureWithRotate)\<close>

text \<open>
  The state of the control loop: the daemon's fields, the locals \<open>needRestart\<close> and
  \<open>err\<close>, the commands launched so far (one per \<open>GoFunc(m.runScreenCapture)\<close>), the
  number of \<open>killMinicap\<close> calls, and the terminal result handed to \<open>doneError\<close> by the
  deferred function (\<open>None\<close> while the loop runs).
\<close>

record supervisor =
  daemon :: minicapDaemon
  needRestart :: bool
  err :: "error option"
  launches :: "string list list"
  kills :: nat
  terminal :: "error option option"

text \<open>The three cases of the \<open>select\<close> at line 215.\<close>

datatype event =
    WatchDone "error + control_stream"
  | RotationC int
  | QuitC

definition killMinicap :: "supervisor \<Rightarrow> supervisor" where
  "killMinicap s = s\<lparr>kills := kills s + 1\<rparr>"

definition GoFunc_runScreenCapture :: "supervisor \<Rightarrow> supervisor" where
  "GoFunc_runScreenCapture s = s\<lparr>launches := launches s @ [launch_command (daemon s)]\<rparr>"

text \<open>The deferred \<open>m.doneError(errors.Wrap(err, "minicap"))\<close>.\<close>

definition loop_return :: "supervisor \<Rightarrow> supervisor" where
  "loop_return s = s\<lparr>terminal := Some (Wrap (err s) ''minicap'')\<rparr>"

text \<open>Lines 207-213: what runs before the loop.\<close>

definition loop_enter :: "minicapDaemon \<Rightarrow> supervisor" where
  "loop_enter m =
     GoFunc_runScreenCapture
       (killMinicap \<lparr>daemon = m, needRestart = False, err = None, launches = [],
                     kills = 0, terminal = None\<rparr>)"

text \<open>
  One turn of the loop on the event its \<open>select\<close> takes. Once the loop has returned
  nothing receives any more: an event leaves the state as it is.
\<close>

definition loop_step :: "event \<Rightarrow> supervisor \<Rightarrow> supervisor" where
  "loop_step ev s =
     (if terminal s \<noteq> None then s
      else case ev of
        WatchDone opened \<Rightarrow>
          (let s1 = s\<lparr>err := watch opened\<rparr> in
           if \<not> needRestart s1 then loop_return s1
           else GoFunc_runScreenCapture (s1\<lparr>needRestart := False, err := None\<rparr>))
      | RotationC r \<Rightarrow>
          killMinicap (s\<lparr>needRestart := True, daemon := (daemon s)\<lparr>rotation := r\<rparr>\<rparr>)
      | QuitC \<Rightarrow> loop_return (killMinicap s))"

fun run_loop :: "event list \<Rightarrow> supervisor \<Rightarrow> supervisor" where
  "run_loop [] s = s"
| "run_loop (ev # evs) s = run_loop evs (loop_step ev s)"

text \<open>
  A call of \<open>SetQuality\<close> while the loop runs: the caller writes the field, then its
  send is received by the loop as a rotation event. A call of \<open>SetRotation\<close>: the loop
  receives the value or, on the timer branch, nothing happens.
\<close>

definition call_SetQuality :: "int \<Rightarrow> supervisor \<Rightarrow> supervisor" where
  "call_SetQuality quality s =
     (case SetQuality quality (daemon s) of
        (m', None) \<Rightarrow> s\<lparr>daemon := m'\<rparr>
      | (m', Some r) \<Rightarrow> loop_step (RotationC r) (s\<lparr>daemon := m'\<rparr>))"

definition call_SetRotation :: "int \<Rightarrow> bool \<Rightarrow> supervisor \<Rightarrow> supervisor" where
  "call_SetRotation r taken s =
     (case SetRotation r taken of
        None \<Rightarrow> s
      | Some v \<Rightarrow> loop_step (RotationC v) s)"

section \<open>The frame stream reader (jpgTcpSucker)\<close>

type_synonym byte = "8 word"

text \<open>
  What the network gives one \<open>readFromTcp\<close>: a failed dial, or a connection that
  delivers some bytes and then ends, with \<open>io.EOF\<close> or with another read error (for
  instance after \<open>Stop\<close> has closed the connection).
\<close>

datatype conn_end = EndEOF | EndErr error

datatype network = DialFails error | Connected "byte list" conn_end

text \<open>
  \<open>binary.Read\<close> of a fixed-size value is \<open>io.ReadFull\<close> of its \<open>n\<close> bytes: with too few
  bytes left the error is the connection's own, \<open>io.EOF\<close> when nothing was read and
  \<open>io.ErrUnexpectedEOF\<close> when the value was cut short.
\<close>

definition ReadFull :: "nat \<Rightarrow> byte list \<Rightarrow> conn_end \<Rightarrow> error + byte list \<times> byte list" where
  "ReadFull n bs ce =
     (if n \<le> length bs then Inr (take n bs, drop n bs)
      else case ce of
        EndErr e \<Rightarrow> Inl e
      | EndEOF \<Rightarrow> if bs = [] then Inl ErrEOF else Inl ErrUnexpectedEOF)"

text \<open>
  \<open>errorBinaryReader.ReadInto\<close> (lines 346-357) on values of the given sizes: it stops
  at the first error. Its stored error is nil whenever the source calls it, since every
  error makes \<open>readFromTcp\<close> return.
\<close>

fun ReadInto :: "nat list \<Rightarrow> byte list \<Rightarrow> conn_end \<Rightarrow> error + byte list list \<times> byte list" where
  "ReadInto [] bs ce = Inr ([], bs)"
| "ReadInto (n # ns) bs ce =
     (case ReadFull n bs ce of
        Inl e \<Rightarrow> Inl e
      | Inr (v, rest) \<Rightarrow>
          (case ReadInto ns rest ce of
             Inl e \<Rightarrow> Inl e
           | Inr (vs, rest') \<Rightarrow> Inr (v # vs, rest')))"

text \<open>A \<open>uint32\<close> from its four bytes, least significant first.\<close>

definition le_uint32 :: "byte list \<Rightarrow> 32 word" where
  "le_uint32 bs =
     (case bs of
        [b0, b1, b2, b3] \<Rightarrow>
          ucast b0 OR push_bit 8 (ucast b1) OR push_bit 16 (ucast b2) OR push_bit 24 (ucast b3)
      | _ \<Rightarrow> 0)"

text \<open>
  The reader's side of the session: the buffer of the channel \<open>C\<close> (made with capacity
  3 at line 314), and three counters that only record what happened: every frame the
  \<open>select\<close> at line 418 has sent into the channel, the longest the buffer has been after
  a send, and the number of \<open>net.Dial\<close> calls and of 500 ms timers that fired.
\<close>

record reader =
  queue :: "byte list list"
  delivered :: "byte list list"
  peak :: nat
  dials :: nat
  waits :: nat

text \<open>
  Lines 418-422: the send has a \<open>default\<close> branch, so it is taken only when the buffer
  has room.
\<close>

definition try_send :: "byte list \<Rightarrow> reader \<Rightarrow> reader" where
  "try_send frame s =
     (if length (queue s) < 3 then
        s\<lparr>queue := queue s @ [frame], delivered := delivered s @ [frame],
          peak := max (peak s) (Suc (length (queue s)))\<rparr>
      else s)"

text \<open>The consumer takes \<open>k\<close> frames from the channel (fewer when fewer are there).\<close>

definition consume :: "nat \<Rightarrow> reader \<Rightarrow> reader" where
  "consume k s = s\<lparr>queue := drop k (queue s)\<rparr>"

text \<open>
  \<open>buf.Bytes()[:2]\<close> at line 414. A Go slice expression is bounded by the capacity of
  the slice, not by its length: with fewer than two payload bytes it reaches into the
  rest of the buffer's backing array, and it panics only when the array itself is shorter
  than two bytes. The array is allocated inside \<open>bytes.Buffer\<close>, outside the source, so
  the number \<open>slack\<close> of array bytes after the payload is a parameter; a fresh buffer is
  zeroed, so those bytes are 0. (\<open>bytes.Buffer.ReadFrom\<close> grows the buffer by
  \<open>bytes.MinRead\<close> = 512 before it reads.)
\<close>

definition first_two :: "nat \<Rightarrow> byte list \<Rightarrow> byte list option" where
  "first_two slack payload =
     (if length payload + slack < 2 then None
      else Some (take 2 (payload @ replicate slack 0)))"

datatype result = Panic | Return "error option"

text \<open>
  The loop of lines 402-423 on the bytes still to come. The consumer's activity is a
  list: its head is the number of frames taken from the channel before this turn's send
  (nothing is taken once the list is used up).
\<close>

function read_frames ::
  "nat \<Rightarrow> conn_end \<Rightarrow> nat list \<Rightarrow> byte list \<Rightarrow> reader \<Rightarrow> result \<times> reader" where
  "read_frames slack ce consumer bs s =
     (case ReadFull 4 bs ce of
        Inl e \<Rightarrow> (Return (Some e), s)
      | Inr (v, rest) \<Rightarrow>
          (let size = le_uint32 v;
               payload = take (unat size) rest;
               copy_err = (if length rest < unat size
                           then (case ce of EndErr e \<Rightarrow> Some e | EndEOF \<Rightarrow> None)
                           else None)
           in case copy_err of
                Some e \<Rightarrow> (Return (Some e), s)
              | None \<Rightarrow>
                  (case first_two slack payload of
                     None \<Rightarrow> (Panic, s)
                   | Some m \<Rightarrow>
                       if m \<noteq> [0xFF, 0xD8] then
                         (Return (Some (ErrNew ''jpeg format error, not starts with 0xff,0xd8'')), s)
                       else
                         read_frames slack ce (tl consumer) (drop (unat size) rest)
                           (try_send payload
                              (consume (case consumer of [] \<Rightarrow> 0 | k # _ \<Rightarrow> k) s)))))"
  by pat_completeness auto
termination
  by (relation "measure (\<lambda>(slack, ce, consumer, bs, s). length bs)")
     (auto simp: ReadFull_def split: if_splits conn_end.splits)

declare read_frames.simps [simp del]

text \<open>\<open>readFromTcp\<close> (lines 384-425): dial, read the preamble once, then the loop.\<close>

definition readFromTcp :: "nat \<Rightarrow> network \<Rightarrow> nat list \<Rightarrow> reader \<Rightarrow> result \<times> reader" where
  "readFromTcp slack nw consumer s =
     (let s1 = s\<lparr>dials := dials s + 1\<rparr> in
      case nw of
        DialFails e \<Rightarrow> (Return (Some e), s1)
      | Connected bs ce \<Rightarrow>
          (case ReadInto [1, 1, 4, 4, 4, 4, 4, 1, 1] bs ce of
             Inl e \<Rightarrow> (Return (Some e), s1)
           | Inr (preamble, rest) \<Rightarrow> read_frames slack ce consumer rest s1))"

text \<open>
  One turn of the loop in \<open>keepReadFromTcp\<close>: what the network gives the
  \<open>readFromTcp\<close> it starts, what the consumer does meanwhile, and which branch each of
  its two \<open>select\<close>s takes: the awaited event (\<open>Fires\<close>) or the stop signal (\<open>Quits\<close>).
\<close>

datatype sel = Fires | Quits

record attempt =
  net :: network
  consumer_takes :: "nat list"
  first_select :: sel
  second_select :: sel

text \<open>
  Lines 365-381. \<open>readFromTcp\<close> runs in its own goroutine whichever branch the first
  \<open>select\<close> takes, so its effect on the channel is kept in both, and a panic in it ends
  the program.
\<close>

function keep_loop ::
  "nat \<Rightarrow> (nat \<Rightarrow> attempt) \<Rightarrow> int \<Rightarrow> nat \<Rightarrow> reader \<Rightarrow> result \<times> reader" where
  "keep_loop slack env leftRetry i s =
     (case readFromTcp slack (net (env i)) (consumer_takes (env i)) s of
        (Panic, s1) \<Rightarrow> (Panic, s1)
      | (Return e, s1) \<Rightarrow>
          (case first_select (env i) of
             Quits \<Rightarrow> (Return None, s1)
           | Fires \<Rightarrow>
               (case second_select (env i) of
                  Quits \<Rightarrow> (Return None, s1)
                | Fires \<Rightarrow>
                    (let s2 = s1\<lparr>waits := waits s1 + 1\<rparr> in
                     if leftRetry \<le> 0 then
                       (Return (Some (ErrNew ''jpgTcpSucker reach max retry(10)'')), s2)
                     else keep_loop slack env (leftRetry - 1) (i + 1) s2))))"
  by pat_completeness auto
termination
  by (relation "measure (\<lambda>(slack, env, leftRetry, i, s). nat leftRetry)") auto

declare keep_loop.simps [simp del]

text \<open>
  \<open>keepReadFromTcp\<close> (lines 360-382): the loop with \<open>leftRetry\<close> 10 and the deferred
  \<open>s.doneError(errors.Wrap(err, "readFromTcp"))\<close>, whose argument is the task's
  terminal result.
\<close>

definition keepReadFromTcp :: "nat \<Rightarrow> (nat \<Rightarrow> attempt) \<Rightarrow> reader \<Rightarrow> result \<times> reader" where
  "keepReadFromTcp slack env s =
     (case keep_loop slack env 10 0 s of
        (Panic, s') \<Rightarrow> (Panic, s')
      | (Return e, s') \<Rightarrow> (Return (Wrap e ''readFromTcp''), s'))"

section \<open>The device agent and binary provisioning\<close>

text \<open>
  The remote device as the supervisor sees it: the paths for which \<open>Stat\<close> succeeds, the
  answer of \<open>Properties()\<close>, the URLs whose push fails (with the error), and the list of
  all \<open>PushFileFromHTTP\<close> calls made so far, each with destination, permission bits and
  URL.
\<close>

record device =
  remote_files :: "string list"
  props :: "error + (string \<times> string) list"
  push_errors :: "(string \<times> error) list"
  push_calls :: "(string \<times> nat \<times> string) list"

text \<open>The permission bits \<open>0644\<close> and \<open>0755\<close> are octal literals.\<close>

definition perm_0644 :: nat where "perm_0644 = 6 * 64 + 4 * 8 + 4"
definition perm_0755 :: nat where "perm_0755 = 7 * 64 + 5 * 8 + 5"

definition isRemoteExists :: "device \<Rightarrow> string \<Rightarrow> bool" where
  "isRemoteExists d path = (path \<in> set (remote_files d))"

text \<open>
  Modelled from the spec: \<open>AdbFileExists\<close> is not in the source file; the spec says the
  push skips "any file that already exists remotely", so it answers whether the path
  exists on the device.
\<close>

definition AdbFileExists :: "device \<Rightarrow> string \<Rightarrow> bool" where
  "AdbFileExists d path = (path \<in> set (remote_files d))"

text \<open>
  Modelled from the spec: \<open>PushFileFromHTTP\<close> is not in the source file; the spec
  describes a file push with permissions of bytes fetched from the artifact host. The call
  is recorded; when it succeeds the destination exists afterwards.
\<close>

definition PushFileFromHTTP :: "string \<Rightarrow> nat \<Rightarrow> string \<Rightarrow> device \<Rightarrow> error option \<times> device" where
  "PushFileFromHTTP dst perms urlStr d =
     (let d1 = d\<lparr>push_calls := push_calls d @ [(dst, perms, urlStr)]\<rparr> in
      case map_of (push_errors d) urlStr of
        Some e \<Rightarrow> (Some e, d1)
      | None \<Rightarrow> (None, d1\<lparr>remote_files := remote_files d1 @ [dst]\<rparr>))"

text \<open>The loop of \<open>pushFiles\<close> (lines 160-178) over the file names still to do.\<close>

fun push_each :: "string \<Rightarrow> string \<Rightarrow> string list \<Rightarrow> device \<Rightarrow> error option \<times> device" where
  "push_each abi sdk [] d = (None, d)"
| "push_each abi sdk (filename # rest) d =
     (let dst = ''/data/local/tmp/'' @ filename in
      if AdbFileExists d dst then push_each abi sdk rest d
      else
        (let baseUrl = ''https://gohttp.nie.netease.com/openstf/vendor'';
             perms = (if filename = ''minicap.so'' then perm_0644 else perm_0755);
             urlStr = (if filename = ''minicap.so''
                       then baseUrl @ ''/minicap/shared/android-'' @ sdk @ ''/'' @ abi @ ''/minicap.so''
                       else baseUrl @ ''/minicap/bin/'' @ abi @ ''/minicap'')
         in case PushFileFromHTTP dst perms urlStr d of
              (Some e, d') \<Rightarrow> (Some e, d')
            | (None, d') \<Rightarrow> push_each abi sdk rest d'))"

definition pushFiles :: "device \<Rightarrow> error option \<times> device" where
  "pushFiles d =
     (case props d of
        Inl e \<Rightarrow> (Some e, d)
      | Inr ps \<Rightarrow>
          (case map_of ps ''ro.product.cpu.abi'' of
             None \<Rightarrow> (Some (ErrNew ''No ro.product.cpu.abi propery''), d)
           | Some abi \<Rightarrow>
               (case map_of ps ''ro.build.version.sdk'' of
                  None \<Rightarrow> (Some (ErrNew ''No ro.build.version.sdk propery''), d)
                | Some sdk \<Rightarrow> push_each abi sdk [''minicap.so'', ''minicap''] d)))"

text \<open>
  What running the binary with \<open>-i\<close> gives: \<open>RunCommand\<close> fails, or its output does
  not parse as JSON, or it parses to the device information.
\<close>

datatype probe = RunFails error | BadJson error | Info minicapInfo

definition run_info :: "probe \<Rightarrow> error + minicapInfo" where
  "run_info pr =
     (case pr of
        RunFails e \<Rightarrow> Inl (ErrWrap e ''run minicap -i'')
      | BadJson e \<Rightarrow> Inl e
      | Info mi \<Rightarrow> Inr mi)"

text \<open>\<open>prepare\<close> (lines 110-127).\<close>

definition prepare ::
  "probe \<Rightarrow> device \<Rightarrow> minicapDaemon \<Rightarrow> (error + minicapInfo) \<times> device \<times> minicapDaemon" where
  "prepare pr d m =
     (let slowCap = ''/data/local/tmp/slow-minicap'' in
      if isRemoteExists d slowCap then (run_info pr, d, m\<lparr>binaryPath := slowCap\<rparr>)
      else
        (let m1 = m\<lparr>binaryPath := ''/data/local/tmp/minicap''\<rparr> in
         case pushFiles d of
           (Some e, d') \<Rightarrow> (Inl e, d', m1)
         | (None, d') \<Rightarrow> (run_info pr, d', m1)))"

text \<open>
  \<open>prepareSafe\<close> (lines 94-105), from the value \<open>n\<close> of its counter; \<open>probes n\<close> is
  what the probe of that attempt gives. \<open>killMinicap\<close> and the sleep between attempts
  act on the remote process table and the clock only.
\<close>

function prepareSafe_from ::
  "(nat \<Rightarrow> probe) \<Rightarrow> nat \<Rightarrow> device \<Rightarrow> minicapDaemon \<Rightarrow>
   (error + minicapInfo) \<times> device \<times> minicapDaemon" where
  "prepareSafe_from probes n d m =
     (case prepare (probes n) d m of
        (r, d', m') \<Rightarrow>
          if \<not> isl r \<or> n \<ge> 3 then (r, d', m')
          else prepareSafe_from probes (n + 1) d' m')"
  by pat_completeness auto
termination
  by (relation "measure (\<lambda>(probes, n, d, m). 3 - n)") auto

declare prepareSafe_from.simps [simp del]

definition prepareSafe ::
  "(nat \<Rightarrow> probe) \<Rightarrow> device \<Rightarrow> minicapDaemon \<Rightarrow>
   (error + minicapInfo) \<times> device \<times> minicapDaemon" where
  "prepareSafe probes d m = prepareSafe_from probes 0 d m"

section \<open>The session coordinator (STFCapturer)\<close>

text \<open>\<open>adb.ForwardSpec\<close>: a protocol and a port or name.\<close>

datatype protocol = FProtocolUnset | FProtocolTcp | FProtocolAbstract

type_synonym ForwardSpec = "protocol \<times> string"

text \<open>The background task of the reader: not started, running, or finished with its
  terminal result.\<close>

datatype task = NoTask | Running | Finished "error option"

record jpgTcpSucker =
  port :: int
  forwardSpec :: ForwardSpec
  rtask :: task
  rbusy :: bool
  rstops :: nat
  rquitC :: "nat option"

text \<open>
  The coordinator with its two components and the device they share. \<open>mstarted\<close> says
  that a control loop has been started, \<open>mbusy\<close> and \<open>rbusy\<close> that a \<open>Start\<close> or \<open>Stop\<close>
  of the component is in flight in another goroutine, \<open>mstops\<close> and \<open>rstops\<close> count the
  calls of each component's \<open>Stop\<close>. \<open>mquitC\<close> and \<open>rquitC\<close> are the two channels
  \<open>quitC\<close>: \<open>None\<close> while the field is nil, otherwise the number of signals that wait in
  the buffer of the channel, which \<open>Start\<close> makes with capacity 1 (lines 71 and 315).
\<close>

record STFCapturer =
  dev :: device
  sup :: supervisor
  mstarted :: bool
  mbusy :: bool
  mstops :: nat
  mquitC :: "nat option"
  sucker :: jpgTcpSucker

definition NewSTFCapturer :: "device \<Rightarrow> STFCapturer" where
  "NewSTFCapturer d =
     \<lparr>dev = d,
      sup = \<lparr>daemon = newMinicapDaemon, needRestart = False, err = None, launches = [],
             kills = 0, terminal = None\<rparr>,
      mstarted = False, mbusy = False, mstops = 0, mquitC = None,
      sucker = \<lparr>port = 0, forwardSpec = (FProtocolUnset, []), rtask = NoTask,
                rbusy = False, rstops = 0, rquitC = None\<rparr>\<rparr>"

text \<open>
  A call either returns or never does: a send on a channel that nothing will receive
  from, and a wait for a task that was never started, block for ever.
\<close>

datatype 'a call = Blocks | Returns 'a

text \<open>
  The send \<open>quitC <- true\<close> of a \<open>Stop\<close> (lines 88 and 327) on a channel of capacity 1
  whose only receiver is the component's background task. On a nil channel it never
  returns. When the task runs, the task receives the signal and the buffer is as before.
  When no task runs, the signal goes into the buffer if that is empty, and otherwise the
  send never returns. The result is the channel after the send.
\<close>

definition send_quit :: "bool \<Rightarrow> nat option \<Rightarrow> nat option call" where
  "send_quit task_runs quitC =
     (case quitC of
        None \<Rightarrow> Blocks
      | Some n \<Rightarrow>
          if task_runs then Returns (Some n)
          else if n < 1 then Returns (Some (n + 1))
          else Blocks)"

text \<open>
  Modelled from the spec: \<open>safeDo\<close> is not in the source file; the spec says a call
  "fails fast with AlreadyRunning if a start/stop is already in flight". \<open>in_flight\<close> is
  the component's flag, \<open>rejected\<close> what the caller gets when it is set, \<open>body\<close> what the
  function handed to \<open>safeDo\<close> gives.
\<close>

definition safeDo :: "bool \<Rightarrow> 'r \<Rightarrow> 'r \<Rightarrow> 'r" where
  "safeDo in_flight rejected body = (if in_flight then rejected else body)"

text \<open>
  Modelled from the spec: \<open>Wait\<close> (of \<open>errorMixin\<close>) is not in the source file; the
  spec says it "always reflects the most recent terminal outcome" and that \<open>Stop\<close> "blocks
  until it exits". It returns the result recorded by \<open>doneError\<close>, and does not return
  while none is recorded.
\<close>

definition Wait :: "error option option \<Rightarrow> error option call" where
  "Wait recorded = (case recorded of None \<Rightarrow> Blocks | Some r \<Rightarrow> Returns r)"

text \<open>
  \<open>minicapDaemon.Start\<close> (lines 67-83). The new \<open>quitC\<close> is made before
  \<open>prepareSafe\<close> runs, so a \<open>Start\<close> that fails has made it too.
\<close>

definition minicapDaemon_Start :: "(nat \<Rightarrow> probe) \<Rightarrow> STFCapturer \<Rightarrow> error option \<times> STFCapturer" where
  "minicapDaemon_Start probes c =
     safeDo (mbusy c) (Some ErrAlreadyRunning, c)
       (case prepareSafe probes (dev c) (daemon (sup c)) of
          (Inl e, d', m') \<Rightarrow>
            (Wrap (Some e) ''prepare minicap'',
             c\<lparr>dev := d', sup := (sup c)\<lparr>daemon := m'\<rparr>, mquitC := Some 0\<rparr>)
        | (Inr minfo, d', m') \<Rightarrow>
            (None,
             c\<lparr>dev := d',
               sup := loop_enter
                        (m'\<lparr>width := Width minfo, height := Height minfo,
                            rotation := Rotation minfo\<rparr>),
               mstarted := True, mquitC := Some 0\<rparr>))"

text \<open>
  \<open>jpgTcpSucker.Start\<close> (lines 310-323); \<open>forward\<close> is what \<open>ForwardToFreePort\<close> gives
  for a forward specification. The new \<open>quitC\<close> is made before the forward is requested.
\<close>

definition jpgTcpSucker_Start ::
  "(ForwardSpec \<Rightarrow> error + int) \<Rightarrow> jpgTcpSucker \<Rightarrow> error option \<times> jpgTcpSucker" where
  "jpgTcpSucker_Start forward k =
     safeDo (rbusy k) (Some ErrAlreadyRunning, k)
       (case forward (forwardSpec k) of
          Inl e \<Rightarrow> (Some e, k\<lparr>rquitC := Some 0\<rparr>)
        | Inr p \<Rightarrow> (None, k\<lparr>port := p, rtask := Running, rquitC := Some 0\<rparr>))"

text \<open>\<open>STFCapturer.Start\<close> (lines 439-450).\<close>

definition STFCapturer_Start ::
  "(nat \<Rightarrow> probe) \<Rightarrow> (ForwardSpec \<Rightarrow> error + int) \<Rightarrow> STFCapturer \<Rightarrow>
   error option \<times> STFCapturer" where
  "STFCapturer_Start probes forward c =
     (case minicapDaemon_Start probes c of
        (Some e, c1) \<Rightarrow> (Some e, c1)
      | (None, c1) \<Rightarrow>
          (let spec = (if binaryPath (daemon (sup c1)) = ''/data/local/tmp/slow-minicap''
                       then (FProtocolTcp, ''2016'')
                       else (FProtocolAbstract, ''minicap''));
               k = (sucker c1)\<lparr>forwardSpec := spec\<rparr>
           in case jpgTcpSucker_Start forward k of
                (e, k') \<Rightarrow> (e, c1\<lparr>sucker := k'\<rparr>)))"

text \<open>
  \<open>minicapDaemon.Stop\<close> (lines 85-91): first the send on \<open>quitC\<close>, then \<open>Wait\<close>. The
  control loop runs when one has been started and no result is recorded yet; it then
  takes the quit branch of its \<open>select\<close>. A loop that has already returned receives
  nothing: the first \<open>Stop\<close> after it leaves its signal in the buffer and \<open>Wait\<close> gives
  the recorded result, and a further \<open>Stop\<close> finds the buffer full and never returns.
  When no loop was started nothing is ever recorded.
\<close>

definition minicapDaemon_Stop :: "STFCapturer \<Rightarrow> (error option \<times> STFCapturer) call" where
  "minicapDaemon_Stop c =
     (let c1 = c\<lparr>mstops := mstops c + 1\<rparr> in
      safeDo (mbusy c1) (Returns (Some ErrAlreadyRunning, c1))
        (let loop_runs = (mstarted c1 \<and> terminal (sup c1) = None) in
         case send_quit loop_runs (mquitC c1) of
           Blocks \<Rightarrow> Blocks
         | Returns q \<Rightarrow>
             (let s' = (if loop_runs then loop_step QuitC (sup c1) else sup c1);
                  recorded = (if mstarted c1 then terminal s' else None)
              in case Wait recorded of
                   Blocks \<Rightarrow> Blocks
                 | Returns r \<Rightarrow> Returns (r, c1\<lparr>sup := s', mquitC := q\<rparr>))))"

text \<open>
  \<open>jpgTcpSucker.Stop\<close> (lines 325-333): first the send on \<open>quitC\<close>, then \<open>Wait\<close>. A
  running task takes the quit branch of the \<open>select\<close> it waits in and returns nil, which
  the deferred call wraps and records; a task that has finished has recorded its result
  and receives nothing, so a second \<open>Stop\<close> after it finds the buffer full; without a
  task nothing is recorded. Closing the connection acts on the network only.
\<close>

definition jpgTcpSucker_Stop :: "jpgTcpSucker \<Rightarrow> (error option \<times> jpgTcpSucker) call" where
  "jpgTcpSucker_Stop k =
     (let k1 = k\<lparr>rstops := rstops k + 1\<rparr> in
      safeDo (rbusy k1) (Returns (Some ErrAlreadyRunning, k1))
        (case send_quit (rtask k1 = Running) (rquitC k1) of
           Blocks \<Rightarrow> Blocks
         | Returns q \<Rightarrow>
             (let k2 = (case rtask k1 of
                          Running \<Rightarrow> k1\<lparr>rtask := Finished (Wrap None ''readFromTcp'')\<rparr>
                        | _ \<Rightarrow> k1);
                  recorded = (case rtask k2 of Finished r \<Rightarrow> Some r | _ \<Rightarrow> None)
              in case Wait recorded of
                   Blocks \<Rightarrow> Blocks
                 | Returns r \<Rightarrow> Returns (r, k2\<lparr>rquitC := q\<rparr>))))"

text \<open>
  Modelled from the spec: \<open>wrapMultiError\<close> is not in the source file; the spec says
  the coordinator's stop result combines "both errors rather than short-circuiting" and
  "aggregates both sub-component errors without suppression". It is nil when every
  argument is nil, and otherwise one error that holds every non-nil argument, in order.
\<close>

fun non_nil :: "error option list \<Rightarrow> error list" where
  "non_nil [] = []"
| "non_nil (None # es) = non_nil es"
| "non_nil (Some e # es) = e # non_nil es"

definition wrapMultiError :: "error option list \<Rightarrow> error option" where
  "wrapMultiError errs = (case non_nil errs of [] \<Rightarrow> None | es \<Rightarrow> Some (ErrMulti es))"

text \<open>
  \<open>STFCapturer.Stop\<close> (lines 452-456): Go evaluates both arguments, in order, before
  it calls \<open>wrapMultiError\<close>.
\<close>

definition STFCapturer_Stop :: "STFCapturer \<Rightarrow> (error option \<times> STFCapturer) call" where
  "STFCapturer_Stop c =
     (case minicapDaemon_Stop c of
        Blocks \<Rightarrow> Blocks
      | Returns (e1, c1) \<Rightarrow>
          (case jpgTcpSucker_Stop (sucker c1) of
             Blocks \<Rightarrow> Blocks
           | Returns (e2, k') \<Rightarrow> Returns (wrapMultiError [e1, e2], c1\<lparr>sucker := k'\<rparr>)))"

section \<open>The wording of the specification\<close>

text \<open>
  The specification speaks of the "first non-empty line" of the control stream. This is
  that line, as the specification words it, to be compared with what \<open>watch\<close> checks.
\<close>

definition spec_first_nonempty_line :: "string list \<Rightarrow> string option" where
  "spec_first_nonempty_line ls = find (\<lambda>l. l \<noteq> []) ls"

text \<open>
  The specification speaks of "repeated Start/Stop cycles". One cycle is a \<open>Start\<close> of
  the coordinator followed by its \<open>Stop\<close>, each cycle with its own answers of the device
  to the probes and to the forward request; the cycles end early when a \<open>Stop\<close> never
  returns.
\<close>

fun start_stop_cycles ::
  "((nat \<Rightarrow> probe) \<times> (ForwardSpec \<Rightarrow> error + int)) list \<Rightarrow> STFCapturer \<Rightarrow> STFCapturer" where
  "start_stop_cycles [] c = c"
| "start_stop_cycles ((probes, forward) # envs) c =
     (let c1 = snd (STFCapturer_Start probes forward c) in
      case STFCapturer_Stop c1 of
        Blocks \<Rightarrow> c1
      | Returns (e, c2) \<Rightarrow> start_stop_cycles envs c2)"

section \<open>Properties of the supervisor\<close>

text \<open>
  C1. One \<open>SetQuality\<close> call for the tier 1080 on a new daemon (bounding box 720x720,
  device 1080x1920) leaves \<open>maxWidth\<close> at 720 and sets only \<open>maxHeight\<close>; the relaunch
  that follows is made with the parameter string \<open>1080x1920@720x1080/0\<close>, not with the
  tier's box 1080x1080.
\<close>

theorem SetQuality_1080P_leaves_maxWidth:
  "SetQuality QUALITY_1080P (newMinicapDaemon\<lparr>width := 1080, height := 1920\<rparr>) =
     (newMinicapDaemon\<lparr>width := 1080, height := 1920, maxHeight := 1080\<rparr>, Some 0) \<and>
   maxWidth (newMinicapDaemon\<lparr>width := 1080, height := 1920, maxHeight := 1080\<rparr>) = 720 \<and>
   launches (loop_step (WatchDone (Inr ([''PID: 9355''], ErrEOF)))
              (call_SetQuality QUALITY_1080P
                (loop_enter (newMinicapDaemon\<lparr>width := 1080, height := 1920\<rparr>)))) =
     [[''LD_LIBRARY_PATH=/data/local/tmp'', [], ''-P'', ''1080x1920@720x720/0'', ''-S''],
      [''LD_LIBRARY_PATH=/data/local/tmp'', [], ''-P'', ''1080x1920@720x1080/0'', ''-S'']]"
  by (simp add: call_SetQuality_def SetQuality_def QUALITY_1080P_def loop_enter_def
      loop_step_def killMinicap_def GoFunc_runScreenCapture_def newMinicapDaemon_def
      watch_def Wrap_def launch_command_def launch_param_def fmt_d_def Let_def)

text \<open>
  C6, as stated, fails: on a control stream whose first line is empty and whose second
  line is \<open>PID: 1234\<close>, the first non-empty line contains \<open>PID:\<close>, yet the watch fails
  with the protocol-violation error, built from the empty first line.
\<close>

theorem watch_first_nonempty_counterexample:
  "spec_first_nonempty_line ['''', ''PID: 1234''] = Some ''PID: 1234'' \<and>
   Contains ''PID: 1234'' ''PID:'' \<and>
   watch (Inr (['''', ''PID: 1234''], ErrEOF)) = Some (ErrWrap (ErrExpectPID '''') ''run minicap'')"
  by (simp add: spec_first_nonempty_line_def watch_def Wrap_def)

text \<open>
  C6, amended. The first line read from the control stream, empty or not, must contain
  \<open>PID:\<close>, otherwise the watch fails with the protocol-violation error; when it does,
  the result depends on no later line and not on how the stream ends: it is always the
  error \<open>minicap quit\<close>. A stream that ends before its first line gives the error of
  that read, a command that cannot be opened the error of the open; the watch never
  returns nil.
\<close>

theorem watch_first_line:
  "watch (Inr (line # rest, e)) =
     (if Contains line ''PID:'' then Some (ErrNew ''minicap quit'')
      else Some (ErrWrap (ErrExpectPID line) ''run minicap'')) \<and>
   watch (Inr ([], e)) = Some e \<and>
   watch (Inl e) = Some e \<and>
   watch opened \<noteq> None"
  by (auto simp: watch_def Wrap_def split: sum.splits list.splits prod.splits)

theorem watch_first_line_witness:
  "watch (Inr ([''PID: 9355'', ''INFO: Using projection 720x1280@720x1280/0''], ErrEOF)) =
     Some (ErrNew ''minicap quit'') \<and>
   watch (Inr ([''INFO: x'', ''PID: 9355''], ErrEOF)) =
     Some (ErrWrap (ErrExpectPID ''INFO: x'') ''run minicap'')"
  using watch_first_line [of "''PID: 9355''" "[''INFO: Using projection 720x1280@720x1280/0'']" ErrEOF]
        watch_first_line [of "''INFO: x''" "[''PID: 9355'']" ErrEOF]
  by simp

text \<open>
  C7, as stated, fails. A \<open>SetRotation\<close> whose value is taken is the rotation event of
  the control loop. Two requests, 1 and then 3, are both received before the watch
  completes: the first stores rotation 1 and kills the process, yet a single relaunch
  follows, with rotation 3, and no launch ever uses rotation 1. A request followed by a
  stop changes the state as well and is followed by no relaunch at all.
\<close>

theorem SetRotation_coalesced_counterexample:
  "call_SetRotation 1 True (loop_enter newMinicapDaemon) =
     loop_step (RotationC 1) (loop_enter newMinicapDaemon) \<and>
   rotation (daemon (loop_step (RotationC 1) (loop_enter newMinicapDaemon))) = 1 \<and>
   kills (loop_step (RotationC 1) (loop_enter newMinicapDaemon)) = 2 \<and>
   launches (run_loop [RotationC 1, RotationC 3, WatchDone (Inr ([''PID: 9355''], ErrEOF))]
               (loop_enter newMinicapDaemon)) =
     [[''LD_LIBRARY_PATH=/data/local/tmp'', [], ''-P'', ''0x0@720x720/0'', ''-S''],
      [''LD_LIBRARY_PATH=/data/local/tmp'', [], ''-P'', ''0x0@720x720/3'', ''-S'']] \<and>
   launches (run_loop [RotationC 1, QuitC] (loop_enter newMinicapDaemon)) =
     [[''LD_LIBRARY_PATH=/data/local/tmp'', [], ''-P'', ''0x0@720x720/0'', ''-S'']] \<and>
   terminal (run_loop [RotationC 1, QuitC] (loop_enter newMinicapDaemon)) = Some None"
  by (simp add: call_SetRotation_def SetRotation_def loop_enter_def loop_return_def
      loop_step_def killMinicap_def GoFunc_runScreenCapture_def newMinicapDaemon_def
      watch_def Wrap_def launch_command_def launch_param_def fmt_d_def Let_def)

text \<open>
  C7, amended. While the control loop runs, a \<open>SetRotation r\<close> whose value is not taken
  before its timer fires leaves the supervisor's state unchanged. One whose value is
  taken stores \<open>r\<close>, kills the process once and launches nothing by itself; if the next
  event the loop handles is the completion of the watch, exactly one relaunch follows,
  with rotation \<open>r\<close>, the loop keeps running, and the completion after that ends the loop
  without a further launch.
\<close>

theorem SetRotation_effect:
  assumes "terminal s = None"
  shows "call_SetRotation r False s = s \<and>
    (let s1 = call_SetRotation r True s;
         s2 = loop_step (WatchDone opened) s1;
         s3 = loop_step (WatchDone opened') s2
     in daemon s1 = (daemon s)\<lparr>rotation := r\<rparr> \<and> kills s1 = kills s + 1 \<and>
        launches s1 = launches s \<and>
        launches s2 = launches s @ [launch_command ((daemon s)\<lparr>rotation := r\<rparr>)] \<and>
        terminal s2 = None \<and>
        launches s3 = launches s2 \<and> terminal s3 = Some (Wrap (watch opened') ''minicap''))"
  using assms
  by (simp add: call_SetRotation_def SetRotation_def loop_return_def
      loop_step_def killMinicap_def GoFunc_runScreenCapture_def Let_def)

theorem SetRotation_effect_witness:
  "terminal (loop_enter newMinicapDaemon) = None \<and>
   call_SetRotation 1 False (loop_enter newMinicapDaemon) = loop_enter newMinicapDaemon \<and>
   launches (loop_step (WatchDone (Inr ([''PID: 9355''], ErrEOF)))
              (call_SetRotation 1 True (loop_enter newMinicapDaemon))) =
     launches (loop_enter newMinicapDaemon) @
       [launch_command ((daemon (loop_enter newMinicapDaemon))\<lparr>rotation := 1\<rparr>)]"
proof -
  have h: "terminal (loop_enter newMinicapDaemon) = None"
    by (simp add: loop_enter_def killMinicap_def GoFunc_runScreenCapture_def)
  show ?thesis
    using h SetRotation_effect [OF h, of 1 "Inr ([''PID: 9355''], ErrEOF)" "Inr ([], ErrEOF)"]
    by (simp add: Let_def)
qed

section \<open>Properties of the reader\<close>

subsection \<open>The marker check\<close>

lemma first_two_marker:
  assumes "first_two slack payload = Some [0xFF, 0xD8]"
  shows "take 2 payload = [0xFF, 0xD8]"
proof (cases payload)
  case Nil
  with assms show ?thesis
    by (cases slack; cases "slack - 1") (auto simp: first_two_def split: if_splits)
next
  case (Cons a p)
  show ?thesis
  proof (cases p)
    case Nil
    with Cons assms show ?thesis
      by (cases slack) (auto simp: first_two_def split: if_splits)
  next
    case (Cons b q)
    with \<open>payload = a # p\<close> assms show ?thesis
      by (auto simp: first_two_def split: if_splits)
  qed
qed

lemma first_two_long:
  "2 \<le> length payload \<Longrightarrow> first_two slack payload = Some (take 2 payload)"
  by (simp add: first_two_def)

text \<open>
  The check sees the spare bytes only through their number being below two or not: any
  two capacities that leave two spare bytes give the same check. The one parameter
  \<open>slack\<close>, the same for every frame, therefore covers buffers whose capacity changes from
  frame to frame.
\<close>

lemma first_two_slack:
  "2 \<le> slack \<Longrightarrow> 2 \<le> slack' \<Longrightarrow> first_two slack payload = first_two slack' payload"
  by (cases payload; cases "tl payload"; cases slack; cases slack';
      cases "slack - 1"; cases "slack' - 1")
     (auto simp: first_two_def)

subsection \<open>Invariants of the read loop\<close>

text \<open>
  The read loop keeps every property of the reader's state that is kept by the
  consumer's taking frames and by the delivery of a frame that begins with the marker;
  its result does not depend on the channel or the consumer.
\<close>

lemma ReadFull_rest_shorter:
  "ReadFull 4 bs ce = Inr (v, rest) \<Longrightarrow> length bs' \<le> length rest \<Longrightarrow> length bs' < length bs"
  by (auto simp: ReadFull_def split: if_splits conn_end.splits)

lemma read_frames_invariant:
  assumes "P s"
    and consume: "\<And>k t. P t \<Longrightarrow> P (consume k t)"
    and send: "\<And>f t. P t \<Longrightarrow> take 2 f = [0xFF, 0xD8] \<Longrightarrow> P (try_send f t)"
  shows "P (snd (read_frames slack ce consumer bs s))"
  using assms(1)
proof (induction "length bs" arbitrary: bs consumer s rule: less_induct)
  case less
  show ?case
  proof (cases "ReadFull 4 bs ce")
    case (Inl e)
    with less.prems show ?thesis
      by (subst read_frames.simps) simp
  next
    case (Inr p)
    obtain v rest where p: "p = (v, rest)" by (cases p)
    have IH: "length bs' \<le> length rest \<Longrightarrow> P t \<Longrightarrow> P (snd (read_frames slack ce c bs' t))"
      for t c bs'
      using less.hyps [OF ReadFull_rest_shorter] Inr p by blast
    show ?thesis
      using Inr p less.prems
      by (subst read_frames.simps)
         (auto simp: Let_def intro!: IH consume send dest: first_two_marker
               split: option.splits)
  qed
qed

lemma read_frames_result_indep:
  "fst (read_frames slack ce consumer bs s) = fst (read_frames slack ce consumer' bs s')"
proof (induction "length bs" arbitrary: bs consumer s consumer' s' rule: less_induct)
  case less
  show ?case
  proof (cases "ReadFull 4 bs ce")
    case (Inl e)
    then show ?thesis
      by (simp add: read_frames.simps [of _ _ _ bs])
  next
    case (Inr p)
    obtain v rest where p: "p = (v, rest)" by (cases p)
    have IH: "length bs' \<le> length rest \<Longrightarrow>
              fst (read_frames slack ce c bs' t) = fst (read_frames slack ce c' bs' t')"
      for t c bs' t' c'
      using less.hyps [OF ReadFull_rest_shorter] Inr p by blast
    show ?thesis
      using Inr p
      by (auto simp: read_frames.simps [of _ _ _ bs] Let_def
               intro!: IH split: option.splits)
  qed
qed


lemma readFromTcp_invariant:
  assumes "P s"
    and "readFromTcp slack nw consumer s = (r, s1)"
    and dial: "\<And>t n. P t \<Longrightarrow> P (t\<lparr>dials := n\<rparr>)"
    and consume: "\<And>k t. P t \<Longrightarrow> P (consume k t)"
    and send: "\<And>f t. P t \<Longrightarrow> take 2 f = [0xFF, 0xD8] \<Longrightarrow> P (try_send f t)"
  shows "P s1"
proof -
  have "P (snd (read_frames slack ce consumer bs (s\<lparr>dials := dials s + 1\<rparr>)))" for ce bs
    by (rule read_frames_invariant [where P = P]) (simp_all add: assms(1) dial consume send)
  then have "read_frames slack ce consumer bs (s\<lparr>dials := dials s + 1\<rparr>) = (r, s1) \<Longrightarrow> P s1"
    for ce bs
    by (metis snd_conv)
  with assms(1,2) dial [OF assms(1)] show ?thesis
    by (auto simp: readFromTcp_def Let_def simp del: ReadInto.simps
        split: network.splits sum.splits prod.splits)
qed

lemma readFromTcp_result_indep:
  "fst (readFromTcp slack nw consumer s) = fst (readFromTcp slack nw consumer' s')"
  by (auto simp: readFromTcp_def Let_def simp del: ReadInto.simps
      intro: read_frames_result_indep split: network.splits sum.splits prod.splits)

lemma keep_loop_invariant:
  assumes "P s"
    and dial: "\<And>t n. P t \<Longrightarrow> P (t\<lparr>dials := n\<rparr>)"
    and wait: "\<And>t n. P t \<Longrightarrow> P (t\<lparr>waits := n\<rparr>)"
    and consume: "\<And>k t. P t \<Longrightarrow> P (consume k t)"
    and send: "\<And>f t. P t \<Longrightarrow> take 2 f = [0xFF, 0xD8] \<Longrightarrow> P (try_send f t)"
  shows "P (snd (keep_loop slack env leftRetry i s))"
  using assms(1)
proof (induction "nat leftRetry" arbitrary: leftRetry i s rule: less_induct)
  case less
  obtain r s1 where rd: "readFromTcp slack (net (env i)) (consumer_takes (env i)) s = (r, s1)"
    by (cases "readFromTcp slack (net (env i)) (consumer_takes (env i)) s")
  have s1: "P s1"
    using less.prems rd dial consume send by (rule readFromTcp_invariant [where P = P])
  have IH: "P (snd (keep_loop slack env (leftRetry - 1) (i + 1) (s1\<lparr>waits := waits s1 + 1\<rparr>)))"
    if "\<not> leftRetry \<le> 0"
    using less.hyps [of "leftRetry - 1"] that wait [OF s1] by simp
  show ?case
    using rd s1 IH wait [OF s1]
    by (subst keep_loop.simps) (auto simp: Let_def split: result.splits sel.splits)
qed


lemma snd_keepReadFromTcp:
  "snd (keepReadFromTcp slack env s) = snd (keep_loop slack env 10 0 s)"
  by (simp add: keepReadFromTcp_def split: prod.splits result.splits)

lemma read_frames_bad_marker:
  assumes "length v = 4" and "unat (le_uint32 v) = length payload"
    and "2 \<le> length payload" and "take 2 payload \<noteq> [0xFF, 0xD8]"
  shows "read_frames slack ce consumer (v @ payload @ rest) s =
     (Return (Some (ErrNew ''jpeg format error, not starts with 0xff,0xd8'')), s)"
  using assms
  by (subst read_frames.simps) (simp add: ReadFull_def Let_def first_two_long)

subsection \<open>The retry loop\<close>

lemma keep_loop_result_indep:
  assumes "\<And>j. net (env j) = net (env' j) \<and> first_select (env j) = first_select (env' j) \<and>
                second_select (env j) = second_select (env' j)"
  shows "fst (keep_loop slack env leftRetry i s) = fst (keep_loop slack env' leftRetry i s')"
proof (induction "nat leftRetry" arbitrary: leftRetry i s s' rule: less_induct)
  case less
  obtain r s1 where rd: "readFromTcp slack (net (env i)) (consumer_takes (env i)) s = (r, s1)"
    by (cases "readFromTcp slack (net (env i)) (consumer_takes (env i)) s")
  obtain r' s1' where rd': "readFromTcp slack (net (env' i)) (consumer_takes (env' i)) s' = (r', s1')"
    by (cases "readFromTcp slack (net (env' i)) (consumer_takes (env' i)) s'")
  have r: "r' = r"
    using readFromTcp_result_indep [of slack "net (env i)" "consumer_takes (env i)" s
        "consumer_takes (env' i)" s'] rd rd' assms [of i]
    by simp
  have IH: "fst (keep_loop slack env (leftRetry - 1) (i + 1) t) =
            fst (keep_loop slack env' (leftRetry - 1) (i + 1) t')"
    if "\<not> leftRetry \<le> 0" for t t'
    using less.hyps [of "leftRetry - 1"] that by simp
  show ?case
    using rd rd' r assms [of i] IH
    by (simp add: keep_loop.simps [of _ _ _ i] Let_def split: result.splits sel.splits)
qed

lemma read_frames_no_panic:
  "2 \<le> slack \<Longrightarrow> fst (read_frames slack ce consumer bs s) \<noteq> Panic"
proof (induction "length bs" arbitrary: bs consumer s rule: less_induct)
  case less
  show ?case
  proof (cases "ReadFull 4 bs ce")
    case (Inl e)
    then show ?thesis
      by (simp add: read_frames.simps [of _ _ _ bs])
  next
    case (Inr p)
    obtain v rest where p: "p = (v, rest)" by (cases p)
    have IH: "length bs' \<le> length rest \<Longrightarrow> fst (read_frames slack ce c bs' t) \<noteq> Panic"
      for t c bs'
      using less.hyps [OF ReadFull_rest_shorter] less.prems Inr p by blast
    show ?thesis
      using Inr p less.prems
      by (auto simp: read_frames.simps [of _ _ _ bs] Let_def first_two_def IH
               split: option.splits)
  qed
qed

lemma readFromTcp_no_panic:
  "2 \<le> slack \<or> (\<exists>e. nw = DialFails e) \<Longrightarrow> fst (readFromTcp slack nw consumer s) \<noteq> Panic"
  by (auto simp: readFromTcp_def Let_def read_frames_no_panic simp del: ReadInto.simps
      split: network.splits sum.splits prod.splits)

lemma readFromTcp_dials:
  assumes "readFromTcp slack nw consumer s = (r, s1)"
  shows "dials s1 = dials s + 1 \<and> waits s1 = waits s"
proof -
  have "(\<lambda>t. dials t = dials s + 1 \<and> waits t = waits s) (snd (read_frames slack ce consumer bs (s\<lparr>dials := dials s + 1\<rparr>)))"
    for ce bs
    by (rule read_frames_invariant) (simp_all add: try_send_def consume_def)
  then have "read_frames slack ce consumer bs (s\<lparr>dials := dials s + 1\<rparr>) = (r, s1) \<Longrightarrow>
      dials s1 = dials s + 1 \<and> waits s1 = waits s" for ce bs
    by (metis snd_conv)
  with assms show ?thesis
    by (auto simp: readFromTcp_def Let_def simp del: ReadInto.simps
        split: network.splits sum.splits prod.splits)
qed

lemma keep_loop_all_dials_fail:
  assumes "\<And>j. (\<exists>e. net (env j) = DialFails e) \<and> first_select (env j) = Fires \<and>
                second_select (env j) = Fires"
  shows "0 \<le> leftRetry \<Longrightarrow> keep_loop slack env leftRetry i s =
     (Return (Some (ErrNew ''jpgTcpSucker reach max retry(10)'')),
      s\<lparr>dials := dials s + nat leftRetry + 1, waits := waits s + nat leftRetry + 1\<rparr>)"
proof (induction "nat leftRetry" arbitrary: leftRetry i s)
  case 0
  then have "leftRetry = 0" by simp
  with assms [of i] show ?case
    by (auto simp: keep_loop.simps [of _ _ _ i] readFromTcp_def Let_def)
next
  case (Suc n)
  then have pos: "\<not> leftRetry \<le> 0" and n: "n = nat (leftRetry - 1)" and "0 \<le> leftRetry - 1"
    by simp_all
  note IH = Suc.hyps(1) [OF n \<open>0 \<le> leftRetry - 1\<close>]
  have "nat leftRetry = Suc (nat (leftRetry - 1))"
    using pos by simp
  with assms [of i] pos show ?case
    by (auto simp: keep_loop.simps [of _ _ _ i] readFromTcp_def Let_def IH)
qed

lemma keep_loop_quit:
  assumes nopanic: "\<And>j t. fst (readFromTcp slack (net (env j)) (consumer_takes (env j)) t) \<noteq> Panic"
  shows "int k \<le> leftRetry \<Longrightarrow>
    (\<forall>j<k. first_select (env (i + j)) = Fires \<and> second_select (env (i + j)) = Fires) \<Longrightarrow>
    first_select (env (i + k)) = Quits \<or> second_select (env (i + k)) = Quits \<Longrightarrow>
    fst (keep_loop slack env leftRetry i s) = Return None \<and>
    dials (snd (keep_loop slack env leftRetry i s)) = dials s + k + 1"
proof (induction k arbitrary: leftRetry i s)
  case 0
  obtain r s1 where rd: "readFromTcp slack (net (env i)) (consumer_takes (env i)) s = (r, s1)"
    by (cases "readFromTcp slack (net (env i)) (consumer_takes (env i)) s")
  have "r \<noteq> Panic" using nopanic [of i s] rd by simp
  with 0 rd readFromTcp_dials [OF rd] show ?case
    by (auto simp: keep_loop.simps [of _ _ _ i] Let_def split: result.splits sel.splits)
next
  case (Suc k)
  obtain r s1 where rd: "readFromTcp slack (net (env i)) (consumer_takes (env i)) s = (r, s1)"
    by (cases "readFromTcp slack (net (env i)) (consumer_takes (env i)) s")
  have r: "r \<noteq> Panic" using nopanic [of i s] rd by simp
  have here: "first_select (env i) = Fires \<and> second_select (env i) = Fires"
    using Suc.prems(2) [rule_format, of 0] by simp
  have pos: "\<not> leftRetry \<le> 0" using Suc.prems(1) by simp
  have IH: "fst (keep_loop slack env (leftRetry - 1) (i + 1) t) = Return None \<and>
    dials (snd (keep_loop slack env (leftRetry - 1) (i + 1) t)) = dials t + k + 1" for t
  proof (rule Suc.IH)
    show "int k \<le> leftRetry - 1" using Suc.prems(1) by simp
    show "\<forall>j<k. first_select (env (i + 1 + j)) = Fires \<and> second_select (env (i + 1 + j)) = Fires"
      using Suc.prems(2) by (metis Suc_eq_plus1 Suc_less_eq add_Suc_right add_Suc)
    show "first_select (env (i + 1 + k)) = Quits \<or> second_select (env (i + 1 + k)) = Quits"
      using Suc.prems(3) by (simp add: add.commute add.left_commute)
  qed
  show ?case
    using rd r here pos readFromTcp_dials [OF rd] IH [of "s1\<lparr>waits := waits s1 + 1\<rparr>"]
    by (auto simp: keep_loop.simps [of _ _ _ i] Let_def split: result.splits)
qed


lemma fst_keepReadFromTcp:
  "fst (keepReadFromTcp slack env s) =
     (case fst (keep_loop slack env 10 0 s) of Panic \<Rightarrow> Panic
      | Return e \<Rightarrow> Return (Wrap e ''readFromTcp''))"
  by (simp add: keepReadFromTcp_def split: prod.splits result.splits)

subsection \<open>The claims about the reader\<close>

text \<open>
  C4. Whatever the network, the consumer and the stop signal do, every frame that the
  reader's task delivers into the channel begins with the bytes FF D8. A payload of at
  least two bytes that begins otherwise ends the read loop at once with the JPEG format
  error, and the reader's state, the channel included, is as it was before the frame.
\<close>

theorem delivered_frames_start_with_marker:
  "((\<forall>f\<in>set (delivered s). take 2 f = [0xFF, 0xD8]) \<longrightarrow>
      (\<forall>f\<in>set (delivered (snd (keepReadFromTcp slack env s))). take 2 f = [0xFF, 0xD8])) \<and>
   (length v = 4 \<and> unat (le_uint32 v) = length payload \<and> 2 \<le> length payload \<and>
    take 2 payload \<noteq> [0xFF, 0xD8] \<longrightarrow>
      read_frames slack ce consumer (v @ payload @ rest) s =
        (Return (Some (ErrNew ''jpeg format error, not starts with 0xff,0xd8'')), s))"
proof (intro conjI impI)
  assume "\<forall>f\<in>set (delivered s). take 2 f = [0xFF, 0xD8]"
  then show "\<forall>f\<in>set (delivered (snd (keepReadFromTcp slack env s))). take 2 f = [0xFF, 0xD8]"
    unfolding snd_keepReadFromTcp
    by (rule keep_loop_invariant) (auto simp: try_send_def consume_def)
next
  assume "length v = 4 \<and> unat (le_uint32 v) = length payload \<and> 2 \<le> length payload \<and>
    take 2 payload \<noteq> [0xFF, 0xD8]"
  then show "read_frames slack ce consumer (v @ payload @ rest) s =
        (Return (Some (ErrNew ''jpeg format error, not starts with 0xff,0xd8'')), s)"
    by (simp add: read_frames_bad_marker)
qed

theorem delivered_frames_start_with_marker_witness:
  "delivered \<lparr>queue = [], delivered = [], peak = 0, dials = 0, waits = 0\<rparr> = [] \<and>
   list_all (\<lambda>f. take 2 f = [0xFF, 0xD8])
     (delivered (snd (keepReadFromTcp 512
        (\<lambda>i. \<lparr>net = Connected (replicate 24 0 @ [2, 0, 0, 0, 0xFF, 0xD8]) EndEOF,
               consumer_takes = [], first_select = Fires, second_select = Fires\<rparr>)
        \<lparr>queue = [], delivered = [], peak = 0, dials = 0, waits = 0\<rparr>))) \<and>
   read_frames 512 EndEOF [] ([2, 0, 0, 0] @ [0xFF, 0xD9] @ [])
       \<lparr>queue = [], delivered = [], peak = 0, dials = 0, waits = 0\<rparr> =
     (Return (Some (ErrNew ''jpeg format error, not starts with 0xff,0xd8'')),
      \<lparr>queue = [], delivered = [], peak = 0, dials = 0, waits = 0\<rparr>)"
  using delivered_frames_start_with_marker
    [of "\<lparr>queue = [], delivered = [], peak = 0, dials = 0, waits = 0\<rparr>" 512
        "\<lambda>i. \<lparr>net = Connected (replicate 24 0 @ [2, 0, 0, 0, 0xFF, 0xD8]) EndEOF,
               consumer_takes = [], first_select = Fires, second_select = Fires\<rparr>"
        "[2, 0, 0, 0]" "[0xFF, 0xD9]" EndEOF "[]" "[]"]
  by (simp add: le_uint32_def list_all_iff)

text \<open>
  C5. The channel never holds more than 3 frames, at the end of the reader's task or
  after any send during it; a frame that finds the channel full is dropped and changes
  nothing; and what \<open>readFromTcp\<close> and the whole task return is the same whatever the
  channel holds and whatever the consumer takes, so a consumer that never takes a frame
  does not hold the reader up. (Both are total functions: they return on every input.)
\<close>

theorem queue_bounded_and_nonblocking:
  "(length (queue s) \<le> 3 \<and> peak s \<le> 3 \<longrightarrow>
      length (queue (snd (keepReadFromTcp slack env s))) \<le> 3 \<and>
      peak (snd (keepReadFromTcp slack env s)) \<le> 3) \<and>
   (length (queue s) = 3 \<longrightarrow> try_send frame s = s) \<and>
   fst (readFromTcp slack nw consumer s) = fst (readFromTcp slack nw consumer' s') \<and>
   ((\<forall>j. net (env j) = net (env' j) \<and> first_select (env j) = first_select (env' j) \<and>
         second_select (env j) = second_select (env' j)) \<longrightarrow>
      fst (keepReadFromTcp slack env s) = fst (keepReadFromTcp slack env' s'))"
proof (intro conjI impI)
  assume a: "length (queue s) \<le> 3 \<and> peak s \<le> 3"
  have "length (queue (snd (keep_loop slack env 10 0 s))) \<le> 3 \<and>
        peak (snd (keep_loop slack env 10 0 s)) \<le> 3"
    using a by (rule keep_loop_invariant) (auto simp: try_send_def consume_def)
  then show "length (queue (snd (keepReadFromTcp slack env s))) \<le> 3"
    and "peak (snd (keepReadFromTcp slack env s)) \<le> 3"
    by (simp_all add: snd_keepReadFromTcp)
next
  assume "length (queue s) = 3"
  then show "try_send frame s = s" by (simp add: try_send_def)
next
  show "fst (readFromTcp slack nw consumer s) = fst (readFromTcp slack nw consumer' s')"
    by (rule readFromTcp_result_indep)
next
  assume "\<forall>j. net (env j) = net (env' j) \<and> first_select (env j) = first_select (env' j) \<and>
         second_select (env j) = second_select (env' j)"
  then have "fst (keep_loop slack env 10 0 s) = fst (keep_loop slack env' 10 0 s')"
    by (intro keep_loop_result_indep) simp
  then show "fst (keepReadFromTcp slack env s) = fst (keepReadFromTcp slack env' s')"
    by (simp add: fst_keepReadFromTcp)
qed

theorem queue_bounded_and_nonblocking_witness:
  "length (queue \<lparr>queue = [[0xFF, 0xD8, 1], [0xFF, 0xD8, 2], [0xFF, 0xD8, 3]], delivered = [],
                  peak = 3, dials = 0, waits = 0\<rparr>) = 3 \<and>
   length (queue (snd (keepReadFromTcp 512
       (\<lambda>i. \<lparr>net = Connected (replicate 24 0 @ [2, 0, 0, 0, 0xFF, 0xD8]) EndEOF,
              consumer_takes = [], first_select = Fires, second_select = Fires\<rparr>)
       \<lparr>queue = [[0xFF, 0xD8, 1], [0xFF, 0xD8, 2], [0xFF, 0xD8, 3]], delivered = [],
        peak = 3, dials = 0, waits = 0\<rparr>))) \<le> 3 \<and>
   try_send [0xFF, 0xD8, 4]
       \<lparr>queue = [[0xFF, 0xD8, 1], [0xFF, 0xD8, 2], [0xFF, 0xD8, 3]], delivered = [],
        peak = 3, dials = 0, waits = 0\<rparr> =
     \<lparr>queue = [[0xFF, 0xD8, 1], [0xFF, 0xD8, 2], [0xFF, 0xD8, 3]], delivered = [],
      peak = 3, dials = 0, waits = 0\<rparr> \<and>
   fst (keepReadFromTcp 512
       (\<lambda>i. \<lparr>net = Connected (replicate 24 0 @ [2, 0, 0, 0, 0xFF, 0xD8]) EndEOF,
              consumer_takes = [], first_select = Fires, second_select = Fires\<rparr>)
       \<lparr>queue = [[0xFF, 0xD8, 1], [0xFF, 0xD8, 2], [0xFF, 0xD8, 3]], delivered = [],
        peak = 3, dials = 0, waits = 0\<rparr>) =
   fst (keepReadFromTcp 512
       (\<lambda>i. \<lparr>net = Connected (replicate 24 0 @ [2, 0, 0, 0, 0xFF, 0xD8]) EndEOF,
              consumer_takes = [3], first_select = Fires, second_select = Fires\<rparr>)
       \<lparr>queue = [], delivered = [], peak = 0, dials = 0, waits = 0\<rparr>)"
  using queue_bounded_and_nonblocking
    [of "\<lparr>queue = [[0xFF, 0xD8, 1], [0xFF, 0xD8, 2], [0xFF, 0xD8, 3]], delivered = [],
          peak = 3, dials = 0, waits = 0\<rparr>" 512
        "\<lambda>i. \<lparr>net = Connected (replicate 24 0 @ [2, 0, 0, 0, 0xFF, 0xD8]) EndEOF,
              consumer_takes = [], first_select = Fires, second_select = Fires\<rparr>"
        "[0xFF, 0xD8, 4]" _ _ _
        "\<lparr>queue = [], delivered = [], peak = 0, dials = 0, waits = 0\<rparr>"
        "\<lambda>i. \<lparr>net = Connected (replicate 24 0 @ [2, 0, 0, 0, 0xFF, 0xD8]) EndEOF,
              consumer_takes = [3], first_select = Fires, second_select = Fires\<rparr>"]
  by simp






text \<open>
  C3. When every dial fails and no stop signal comes, the task dials 11 times, the first
  attempt and 10 retries, each followed by a 500 ms wait that runs out, and then ends:
  its terminal result is the error \<open>jpgTcpSucker reach max retry(10)\<close>, wrapped. When a
  stop signal is taken at either wait of an attempt, the task ends with the result nil
  after the dial of that attempt (this needs a run that does not panic: every dial
  fails, or the buffer has two spare bytes).
\<close>

theorem retry_budget_and_stop:
  "((\<forall>j. (\<exists>e. net (env j) = DialFails e) \<and> first_select (env j) = Fires \<and>
         second_select (env j) = Fires) \<longrightarrow>
      keepReadFromTcp slack env s =
        (Return (Some (ErrWrap (ErrNew ''jpgTcpSucker reach max retry(10)'') ''readFromTcp'')),
         s\<lparr>dials := dials s + 11, waits := waits s + 11\<rparr>)) \<and>
   (k \<le> 10 \<and> (2 \<le> slack \<or> (\<forall>j. \<exists>e. net (env j) = DialFails e)) \<and>
    (\<forall>j<k. first_select (env j) = Fires \<and> second_select (env j) = Fires) \<and>
    (first_select (env k) = Quits \<or> second_select (env k) = Quits) \<longrightarrow>
      fst (keepReadFromTcp slack env s) = Return None \<and>
      dials (snd (keepReadFromTcp slack env s)) = dials s + k + 1)"
proof (intro conjI impI)
  assume "\<forall>j. (\<exists>e. net (env j) = DialFails e) \<and> first_select (env j) = Fires \<and>
         second_select (env j) = Fires"
  then have "keep_loop slack env 10 0 s =
     (Return (Some (ErrNew ''jpgTcpSucker reach max retry(10)'')),
      s\<lparr>dials := dials s + nat 10 + 1, waits := waits s + nat 10 + 1\<rparr>)"
    by (intro keep_loop_all_dials_fail) simp_all
  then show "keepReadFromTcp slack env s =
        (Return (Some (ErrWrap (ErrNew ''jpgTcpSucker reach max retry(10)'') ''readFromTcp'')),
         s\<lparr>dials := dials s + 11, waits := waits s + 11\<rparr>)"
    by (simp add: keepReadFromTcp_def Wrap_def)
next
  assume a: "k \<le> 10 \<and> (2 \<le> slack \<or> (\<forall>j. \<exists>e. net (env j) = DialFails e)) \<and>
    (\<forall>j<k. first_select (env j) = Fires \<and> second_select (env j) = Fires) \<and>
    (first_select (env k) = Quits \<or> second_select (env k) = Quits)"
  have nopanic: "fst (readFromTcp slack (net (env j)) (consumer_takes (env j)) t) \<noteq> Panic" for j t
    using a by (intro readFromTcp_no_panic) blast
  have "fst (keep_loop slack env 10 0 s) = Return None \<and>
        dials (snd (keep_loop slack env 10 0 s)) = dials s + k + 1"
    using a by (intro keep_loop_quit nopanic) simp_all
  then show "fst (keepReadFromTcp slack env s) = Return None"
    and "dials (snd (keepReadFromTcp slack env s)) = dials s + k + 1"
    by (simp_all add: fst_keepReadFromTcp snd_keepReadFromTcp Wrap_def)
qed

theorem retry_budget_and_stop_witness:
  "keepReadFromTcp 512
     (\<lambda>i. \<lparr>net = DialFails (ErrDevice ''connection refused''), consumer_takes = [],
            first_select = Fires, second_select = Fires\<rparr>)
     \<lparr>queue = [], delivered = [], peak = 0, dials = 0, waits = 0\<rparr> =
     (Return (Some (ErrWrap (ErrNew ''jpgTcpSucker reach max retry(10)'') ''readFromTcp'')),
      \<lparr>queue = [], delivered = [], peak = 0, dials = 11, waits = 11\<rparr>) \<and>
   fst (keepReadFromTcp 512
     (\<lambda>i. \<lparr>net = DialFails (ErrDevice ''connection refused''), consumer_takes = [],
            first_select = Fires, second_select = (if i = 3 then Quits else Fires)\<rparr>)
     \<lparr>queue = [], delivered = [], peak = 0, dials = 0, waits = 0\<rparr>) = Return None \<and>
   dials (snd (keepReadFromTcp 512
     (\<lambda>i. \<lparr>net = DialFails (ErrDevice ''connection refused''), consumer_takes = [],
            first_select = Fires, second_select = (if i = 3 then Quits else Fires)\<rparr>)
     \<lparr>queue = [], delivered = [], peak = 0, dials = 0, waits = 0\<rparr>)) = 4"
  using retry_budget_and_stop
    [of "\<lambda>i. \<lparr>net = DialFails (ErrDevice ''connection refused''), consumer_takes = [],
            first_select = Fires, second_select = Fires\<rparr>" 512
        "\<lparr>queue = [], delivered = [], peak = 0, dials = 0, waits = 0\<rparr>" 0]
    retry_budget_and_stop
    [of "\<lambda>i. \<lparr>net = DialFails (ErrDevice ''connection refused''), consumer_takes = [],
            first_select = Fires, second_select = (if i = 3 then Quits else Fires)\<rparr>" 512
        "\<lparr>queue = [], delivered = [], peak = 0, dials = 0, waits = 0\<rparr>" 3]
  by simp

section \<open>Properties of provisioning and of the coordinator\<close>

subsection \<open>Provisioning\<close>

lemma pushFiles_calls:
  assumes "props d = Inr ps"
    and "map_of ps ''ro.product.cpu.abi'' = Some abi"
    and "map_of ps ''ro.build.version.sdk'' = Some sdk"
  shows "push_calls (snd (pushFiles d)) =
     push_calls d @
     (if ''/data/local/tmp/minicap.so'' \<in> set (remote_files d) then []
      else [(''/data/local/tmp/minicap.so'', perm_0644,
             ''https://gohttp.nie.netease.com/openstf/vendor/minicap/shared/android-'' @ sdk @
             ''/'' @ abi @ ''/minicap.so'')]) @
     (if (''/data/local/tmp/minicap.so'' \<notin> set (remote_files d) \<and>
          map_of (push_errors d)
            (''https://gohttp.nie.netease.com/openstf/vendor/minicap/shared/android-'' @ sdk @
             ''/'' @ abi @ ''/minicap.so'') \<noteq> None) \<or>
         ''/data/local/tmp/minicap'' \<in> set (remote_files d) then []
      else [(''/data/local/tmp/minicap'', perm_0755,
             ''https://gohttp.nie.netease.com/openstf/vendor/minicap/bin/'' @ abi @ ''/minicap'')])"
  using assms
  by (auto simp: pushFiles_def AdbFileExists_def PushFileFromHTTP_def Let_def
      split: option.splits)

lemma push_each_slow:
  "''/data/local/tmp/slow-minicap'' \<notin> set (map (\<lambda>f. ''/data/local/tmp/'' @ f) fs) \<Longrightarrow>
   isRemoteExists (snd (push_each abi sdk fs d)) ''/data/local/tmp/slow-minicap'' =
   isRemoteExists d ''/data/local/tmp/slow-minicap''"
proof (induction fs arbitrary: d)
  case Nil
  show ?case by simp
next
  case (Cons f fs)
  then show ?case
    by (auto simp: isRemoteExists_def PushFileFromHTTP_def Let_def split: option.splits)
qed

lemma pushFiles_slow:
  "isRemoteExists (snd (pushFiles d)) ''/data/local/tmp/slow-minicap'' =
   isRemoteExists d ''/data/local/tmp/slow-minicap''"
  by (simp add: pushFiles_def push_each_slow del: push_each.simps
      split: sum.splits option.splits)

lemma prepare_slow:
  "prepare pr d m = (r, d', m') \<Longrightarrow>
   isRemoteExists d' ''/data/local/tmp/slow-minicap'' =
     isRemoteExists d ''/data/local/tmp/slow-minicap'' \<and>
   binaryPath m' = (if isRemoteExists d ''/data/local/tmp/slow-minicap''
                    then ''/data/local/tmp/slow-minicap'' else ''/data/local/tmp/minicap'') \<and>
   (isRemoteExists d ''/data/local/tmp/slow-minicap'' \<longrightarrow> d' = d)"
  using pushFiles_slow [of d]
  by (auto simp: prepare_def Let_def split: if_splits prod.splits option.splits)

lemma prepareSafe_from_slow:
  "prepareSafe_from probes n d m = (r, d', m') \<Longrightarrow>
   isRemoteExists d' ''/data/local/tmp/slow-minicap'' =
     isRemoteExists d ''/data/local/tmp/slow-minicap'' \<and>
   binaryPath m' = (if isRemoteExists d ''/data/local/tmp/slow-minicap''
                    then ''/data/local/tmp/slow-minicap'' else ''/data/local/tmp/minicap'') \<and>
   (isRemoteExists d ''/data/local/tmp/slow-minicap'' \<longrightarrow> d' = d)"
proof (induction "3 - n" arbitrary: n d m rule: less_induct)
  case less
  obtain r1 d1 m1 where p: "prepare (probes n) d m = (r1, d1, m1)"
    by (cases "prepare (probes n) d m")
  note p1 = prepare_slow [OF p]
  show ?case
  proof (cases "\<not> isl r1 \<or> n \<ge> 3")
    case True
    with less.prems p p1 show ?thesis
      by (simp add: prepareSafe_from.simps [of _ n])
  next
    case False
    then have rec: "prepareSafe_from probes (n + 1) d1 m1 = (r, d', m')"
      using less.prems p by (simp add: prepareSafe_from.simps [of _ n])
    have "3 - (n + 1) < 3 - n" using False by arith
    from less.hyps [OF this rec] p1 show ?thesis by auto
  qed
qed


lemma prepare_push_calls:
  "\<not> isRemoteExists d ''/data/local/tmp/slow-minicap'' \<Longrightarrow>
   fst (snd (prepare pr d m)) = snd (pushFiles d) \<and>
   binaryPath (snd (snd (prepare pr d m))) = ''/data/local/tmp/minicap''"
  by (simp add: prepare_def Let_def split: prod.splits option.splits)

lemma minicapDaemon_Start_dev:
  assumes "isRemoteExists (dev c) ''/data/local/tmp/slow-minicap''"
  shows "dev (snd (minicapDaemon_Start probes c)) = dev c"
proof -
  obtain r d' m' where p: "prepareSafe_from probes 0 (dev c) (daemon (sup c)) = (r, d', m')"
    by (cases "prepareSafe_from probes 0 (dev c) (daemon (sup c))")
  from prepareSafe_from_slow [OF p] assms have "d' = dev c" by simp
  with p show ?thesis
    by (simp add: minicapDaemon_Start_def safeDo_def prepareSafe_def split: sum.splits)
qed

lemma STFCapturer_Start_dev:
  "dev (snd (STFCapturer_Start probes forward c)) = dev (snd (minicapDaemon_Start probes c))"
  by (simp add: STFCapturer_Start_def Let_def split: prod.splits option.splits)

lemma STFCapturer_Stop_dev:
  "STFCapturer_Stop c = Returns (e, c') \<Longrightarrow> dev c' = dev c"
  by (auto simp: STFCapturer_Stop_def minicapDaemon_Stop_def safeDo_def Wait_def send_quit_def Let_def
      split: call.splits prod.splits if_splits option.splits)

lemma start_stop_cycles_dev:
  "isRemoteExists (dev c) ''/data/local/tmp/slow-minicap'' \<Longrightarrow>
   dev (start_stop_cycles envs c) = dev c"
proof (induction envs arbitrary: c)
  case Nil
  show ?case by simp
next
  case (Cons env envs)
  obtain probes forward where env: "env = (probes, forward)" by (cases env)
  let ?c1 = "snd (STFCapturer_Start probes forward c)"
  have c1: "dev ?c1 = dev c"
    using Cons.prems by (simp add: STFCapturer_Start_dev minicapDaemon_Start_dev)
  show ?case
  proof (cases "STFCapturer_Stop ?c1")
    case Blocks
    with env c1 show ?thesis by simp
  next
    case (Returns p)
    obtain e c2 where p: "p = (e, c2)" by (cases p)
    have c2: "dev c2 = dev c"
      using STFCapturer_Stop_dev Returns p c1 by metis
    with Cons.IH [of c2] Cons.prems have "dev (start_stop_cycles envs c2) = dev c" by simp
    with env Returns p show ?thesis by simp
  qed
qed

text \<open>
  C8. If the slow variant exists at \<open>/data/local/tmp/slow-minicap\<close>, \<open>prepare\<close> selects
  it and leaves the device as it is: nothing is pushed. Otherwise it selects the fast
  variant and, once the two device properties are read, the pushes it makes are exactly
  these, in this order: the shared library, with permission 0644 and the URL keyed by
  SDK and ABI, unless it exists already; then the executable, with permission 0755 and
  the URL keyed by ABI, unless it exists already or the push of the library failed.
  Hence, when the slow variant exists, any number of Start/Stop cycles of the coordinator
  leave the device, and so its list of pushes, unchanged.
\<close>

theorem provisioning:
  "(isRemoteExists d ''/data/local/tmp/slow-minicap'' \<longrightarrow>
      prepare pr d m = (run_info pr, d, m\<lparr>binaryPath := ''/data/local/tmp/slow-minicap''\<rparr>)) \<and>
   (\<not> isRemoteExists d ''/data/local/tmp/slow-minicap'' \<and> props d = Inr ps \<and>
    map_of ps ''ro.product.cpu.abi'' = Some abi \<and>
    map_of ps ''ro.build.version.sdk'' = Some sdk \<longrightarrow>
      binaryPath (snd (snd (prepare pr d m))) = ''/data/local/tmp/minicap'' \<and>
      push_calls (fst (snd (prepare pr d m))) =
        push_calls d @
        (if ''/data/local/tmp/minicap.so'' \<in> set (remote_files d) then []
         else [(''/data/local/tmp/minicap.so'', perm_0644,
                ''https://gohttp.nie.netease.com/openstf/vendor/minicap/shared/android-'' @ sdk @
                ''/'' @ abi @ ''/minicap.so'')]) @
        (if (''/data/local/tmp/minicap.so'' \<notin> set (remote_files d) \<and>
             map_of (push_errors d)
               (''https://gohttp.nie.netease.com/openstf/vendor/minicap/shared/android-'' @ sdk @
                ''/'' @ abi @ ''/minicap.so'') \<noteq> None) \<or>
            ''/data/local/tmp/minicap'' \<in> set (remote_files d) then []
         else [(''/data/local/tmp/minicap'', perm_0755,
                ''https://gohttp.nie.netease.com/openstf/vendor/minicap/bin/'' @ abi @
                ''/minicap'')])) \<and>
   (isRemoteExists (dev c) ''/data/local/tmp/slow-minicap'' \<longrightarrow>
      dev (start_stop_cycles envs c) = dev c)"
proof (intro conjI impI)
  assume "isRemoteExists d ''/data/local/tmp/slow-minicap''"
  then show "prepare pr d m =
      (run_info pr, d, m\<lparr>binaryPath := ''/data/local/tmp/slow-minicap''\<rparr>)"
    by (simp add: prepare_def)
next
  assume a: "\<not> isRemoteExists d ''/data/local/tmp/slow-minicap'' \<and> props d = Inr ps \<and>
    map_of ps ''ro.product.cpu.abi'' = Some abi \<and>
    map_of ps ''ro.build.version.sdk'' = Some sdk"
  then show "binaryPath (snd (snd (prepare pr d m))) = ''/data/local/tmp/minicap''"
    by (simp add: prepare_push_calls)
  from a have "fst (snd (prepare pr d m)) = snd (pushFiles d)"
    by (simp add: prepare_push_calls)
  with a show "push_calls (fst (snd (prepare pr d m))) =
        push_calls d @
        (if ''/data/local/tmp/minicap.so'' \<in> set (remote_files d) then []
         else [(''/data/local/tmp/minicap.so'', perm_0644,
                ''https://gohttp.nie.netease.com/openstf/vendor/minicap/shared/android-'' @ sdk @
                ''/'' @ abi @ ''/minicap.so'')]) @
        (if (''/data/local/tmp/minicap.so'' \<notin> set (remote_files d) \<and>
             map_of (push_errors d)
               (''https://gohttp.nie.netease.com/openstf/vendor/minicap/shared/android-'' @ sdk @
                ''/'' @ abi @ ''/minicap.so'') \<noteq> None) \<or>
            ''/data/local/tmp/minicap'' \<in> set (remote_files d) then []
         else [(''/data/local/tmp/minicap'', perm_0755,
                ''https://gohttp.nie.netease.com/openstf/vendor/minicap/bin/'' @ abi @
                ''/minicap'')])"
    using pushFiles_calls [of d ps abi sdk] by simp
next
  assume "isRemoteExists (dev c) ''/data/local/tmp/slow-minicap''"
  then show "dev (start_stop_cycles envs c) = dev c"
    by (rule start_stop_cycles_dev)
qed


theorem provisioning_witness:
  "isRemoteExists
     \<lparr>remote_files = [''/data/local/tmp/slow-minicap'', ''/data/local/tmp/minicap''],
      props = Inl (ErrDevice ''offline''), push_errors = [], push_calls = []\<rparr>
     ''/data/local/tmp/slow-minicap'' \<and>
   prepare (BadJson (ErrDevice ''json'')) 
     \<lparr>remote_files = [''/data/local/tmp/slow-minicap'', ''/data/local/tmp/minicap''],
      props = Inl (ErrDevice ''offline''), push_errors = [], push_calls = []\<rparr>
     newMinicapDaemon =
     (Inl (ErrDevice ''json''),
      \<lparr>remote_files = [''/data/local/tmp/slow-minicap'', ''/data/local/tmp/minicap''],
       props = Inl (ErrDevice ''offline''), push_errors = [], push_calls = []\<rparr>,
      newMinicapDaemon\<lparr>binaryPath := ''/data/local/tmp/slow-minicap''\<rparr>) \<and>
   push_calls (fst (snd (prepare (BadJson (ErrDevice ''json''))
     \<lparr>remote_files = [],
      props = Inr [(''ro.product.cpu.abi'', ''arm64-v8a''), (''ro.build.version.sdk'', ''23'')],
      push_errors = [], push_calls = []\<rparr>
     newMinicapDaemon))) =
     [(''/data/local/tmp/minicap.so'', 420,
       ''https://gohttp.nie.netease.com/openstf/vendor/minicap/shared/android-23/arm64-v8a/minicap.so''),
      (''/data/local/tmp/minicap'', 493,
       ''https://gohttp.nie.netease.com/openstf/vendor/minicap/bin/arm64-v8a/minicap'')] \<and>
   dev (start_stop_cycles
          [(\<lambda>n. Info \<lparr>Id = 0, Width = 1080, Height = 1920, Rotation = 0\<rparr>, \<lambda>spec. Inr 7000),
           (\<lambda>n. Info \<lparr>Id = 0, Width = 1080, Height = 1920, Rotation = 0\<rparr>, \<lambda>spec. Inr 7001)]
          (NewSTFCapturer
             \<lparr>remote_files = [''/data/local/tmp/slow-minicap'', ''/data/local/tmp/minicap''],
              props = Inl (ErrDevice ''offline''), push_errors = [], push_calls = []\<rparr>)) =
     \<lparr>remote_files = [''/data/local/tmp/slow-minicap'', ''/data/local/tmp/minicap''],
      props = Inl (ErrDevice ''offline''), push_errors = [], push_calls = []\<rparr>"
  using provisioning
    [of "\<lparr>remote_files = [''/data/local/tmp/slow-minicap'', ''/data/local/tmp/minicap''],
          props = Inl (ErrDevice ''offline''), push_errors = [], push_calls = []\<rparr>"
        "BadJson (ErrDevice ''json'')" newMinicapDaemon "[]" "[]" "[]"
        "NewSTFCapturer
             \<lparr>remote_files = [''/data/local/tmp/slow-minicap'', ''/data/local/tmp/minicap''],
              props = Inl (ErrDevice ''offline''), push_errors = [], push_calls = []\<rparr>"
        "[(\<lambda>n. Info \<lparr>Id = 0, Width = 1080, Height = 1920, Rotation = 0\<rparr>, \<lambda>spec. Inr 7000),
           (\<lambda>n. Info \<lparr>Id = 0, Width = 1080, Height = 1920, Rotation = 0\<rparr>, \<lambda>spec. Inr 7001)]"]
    provisioning
    [of "\<lparr>remote_files = [],
      props = Inr [(''ro.product.cpu.abi'', ''arm64-v8a''), (''ro.build.version.sdk'', ''23'')],
      push_errors = [], push_calls = []\<rparr>"
        "BadJson (ErrDevice ''json'')" newMinicapDaemon
        "[(''ro.product.cpu.abi'', ''arm64-v8a''), (''ro.build.version.sdk'', ''23'')]"
        "''arm64-v8a''" "''23''"]
  by (simp add: isRemoteExists_def NewSTFCapturer_def run_info_def perm_0644_def perm_0755_def)

subsection \<open>Start and Stop of the coordinator\<close>

lemma minicapDaemon_Start_sucker:
  "sucker (snd (minicapDaemon_Start probes c)) = sucker c"
  by (simp add: minicapDaemon_Start_def safeDo_def split: prod.splits sum.splits)

lemma minicapDaemon_Start_ok:
  assumes "fst (minicapDaemon_Start probes c) = None"
  shows "mstarted (snd (minicapDaemon_Start probes c)) \<and>
    binaryPath (daemon (sup (snd (minicapDaemon_Start probes c)))) =
      (if isRemoteExists (dev c) ''/data/local/tmp/slow-minicap''
       then ''/data/local/tmp/slow-minicap'' else ''/data/local/tmp/minicap'')"
proof -
  obtain r d' m' where p: "prepareSafe_from probes 0 (dev c) (daemon (sup c)) = (r, d', m')"
    by (cases "prepareSafe_from probes 0 (dev c) (daemon (sup c))")
  from prepareSafe_from_slow [OF p] have
    "binaryPath m' = (if isRemoteExists (dev c) ''/data/local/tmp/slow-minicap''
       then ''/data/local/tmp/slow-minicap'' else ''/data/local/tmp/minicap'')"
    by simp
  with p assms show ?thesis
    by (auto simp: minicapDaemon_Start_def safeDo_def prepareSafe_def Wrap_def loop_enter_def
        killMinicap_def GoFunc_runScreenCapture_def split: sum.splits if_splits)
qed

text \<open>
  C9. When the supervisor's \<open>Start\<close> fails, the coordinator's \<open>Start\<close> returns that
  error and the reader is as it was: not started, no forward requested. When it
  succeeds, the control loop has been started with the binary the device calls for, the
  reader's forward specification is the TCP port 2016 if the slow variant exists on the
  device and the abstract socket \<open>minicap\<close> otherwise, the result is that of the
  reader's \<open>Start\<close> with this specification, and on success the reader's task runs.
\<close>

theorem coordinator_start:
  "(fst (minicapDaemon_Start probes c) = Some e \<longrightarrow>
      STFCapturer_Start probes forward c = (Some e, snd (minicapDaemon_Start probes c)) \<and>
      sucker (snd (STFCapturer_Start probes forward c)) = sucker c) \<and>
   (fst (minicapDaemon_Start probes c) = None \<longrightarrow>
      (let c' = snd (STFCapturer_Start probes forward c);
           spec = (if isRemoteExists (dev c) ''/data/local/tmp/slow-minicap''
                   then (FProtocolTcp, ''2016'') else (FProtocolAbstract, ''minicap''))
       in mstarted c' \<and>
          binaryPath (daemon (sup c')) =
            (if isRemoteExists (dev c) ''/data/local/tmp/slow-minicap''
             then ''/data/local/tmp/slow-minicap'' else ''/data/local/tmp/minicap'') \<and>
          forwardSpec (sucker c') = spec \<and>
          fst (STFCapturer_Start probes forward c) =
            fst (jpgTcpSucker_Start forward ((sucker c)\<lparr>forwardSpec := spec\<rparr>)) \<and>
          (fst (STFCapturer_Start probes forward c) = None \<longrightarrow>
             rtask (sucker c') = Running)))"
proof (intro conjI impI)
  assume a: "fst (minicapDaemon_Start probes c) = Some e"
  then show "STFCapturer_Start probes forward c = (Some e, snd (minicapDaemon_Start probes c))"
    by (cases "minicapDaemon_Start probes c") (simp add: STFCapturer_Start_def)
  then show "sucker (snd (STFCapturer_Start probes forward c)) = sucker c"
    by (simp add: minicapDaemon_Start_sucker)
next
  assume a: "fst (minicapDaemon_Start probes c) = None"
  obtain c1 where c1: "minicapDaemon_Start probes c = (None, c1)"
    using a by (cases "minicapDaemon_Start probes c") simp
  have ok: "mstarted c1 \<and> binaryPath (daemon (sup c1)) =
      (if isRemoteExists (dev c) ''/data/local/tmp/slow-minicap''
       then ''/data/local/tmp/slow-minicap'' else ''/data/local/tmp/minicap'')"
    using minicapDaemon_Start_ok [OF a] c1 by simp
  have k: "sucker c1 = sucker c"
    using minicapDaemon_Start_sucker [of probes c] c1 by simp
  show "let c' = snd (STFCapturer_Start probes forward c);
           spec = (if isRemoteExists (dev c) ''/data/local/tmp/slow-minicap''
                   then (FProtocolTcp, ''2016'') else (FProtocolAbstract, ''minicap''))
       in mstarted c' \<and>
          binaryPath (daemon (sup c')) =
            (if isRemoteExists (dev c) ''/data/local/tmp/slow-minicap''
             then ''/data/local/tmp/slow-minicap'' else ''/data/local/tmp/minicap'') \<and>
          forwardSpec (sucker c') = spec \<and>
          fst (STFCapturer_Start probes forward c) =
            fst (jpgTcpSucker_Start forward ((sucker c)\<lparr>forwardSpec := spec\<rparr>)) \<and>
          (fst (STFCapturer_Start probes forward c) = None \<longrightarrow>
             rtask (sucker c') = Running)"
    using c1 ok k
    by (auto simp: STFCapturer_Start_def jpgTcpSucker_Start_def safeDo_def Let_def
        split: sum.splits if_splits)
qed

theorem coordinator_start_witness:
  "fst (minicapDaemon_Start (\<lambda>n. RunFails (ErrDevice ''busy''))
         (NewSTFCapturer \<lparr>remote_files = [''/data/local/tmp/slow-minicap''],
            props = Inl (ErrDevice ''offline''), push_errors = [], push_calls = []\<rparr>)) =
     Some (ErrWrap (ErrWrap (ErrDevice ''busy'') ''run minicap -i'') ''prepare minicap'') \<and>
   fst (STFCapturer_Start (\<lambda>n. RunFails (ErrDevice ''busy'')) (\<lambda>spec. Inr 7000)
         (NewSTFCapturer \<lparr>remote_files = [''/data/local/tmp/slow-minicap''],
            props = Inl (ErrDevice ''offline''), push_errors = [], push_calls = []\<rparr>)) =
     Some (ErrWrap (ErrWrap (ErrDevice ''busy'') ''run minicap -i'') ''prepare minicap'') \<and>
   rtask (sucker (snd (STFCapturer_Start (\<lambda>n. RunFails (ErrDevice ''busy'')) (\<lambda>spec. Inr 7000)
         (NewSTFCapturer \<lparr>remote_files = [''/data/local/tmp/slow-minicap''],
            props = Inl (ErrDevice ''offline''), push_errors = [], push_calls = []\<rparr>)))) = NoTask \<and>
   fst (minicapDaemon_Start
         (\<lambda>n. if n < 2 then RunFails (ErrDevice ''busy'')
               else Info \<lparr>Id = 0, Width = 1080, Height = 1920, Rotation = 0\<rparr>)
         (NewSTFCapturer \<lparr>remote_files = [''/data/local/tmp/slow-minicap''],
            props = Inl (ErrDevice ''offline''), push_errors = [], push_calls = []\<rparr>)) = None \<and>
   forwardSpec (sucker (snd (STFCapturer_Start
         (\<lambda>n. if n < 2 then RunFails (ErrDevice ''busy'')
               else Info \<lparr>Id = 0, Width = 1080, Height = 1920, Rotation = 0\<rparr>)
         (\<lambda>spec. Inr 7000)
         (NewSTFCapturer \<lparr>remote_files = [''/data/local/tmp/slow-minicap''],
            props = Inl (ErrDevice ''offline''), push_errors = [], push_calls = []\<rparr>)))) =
     (FProtocolTcp, ''2016'') \<and>
   rtask (sucker (snd (STFCapturer_Start
         (\<lambda>n. if n < 2 then RunFails (ErrDevice ''busy'')
               else Info \<lparr>Id = 0, Width = 1080, Height = 1920, Rotation = 0\<rparr>)
         (\<lambda>spec. Inr 7000)
         (NewSTFCapturer \<lparr>remote_files = [''/data/local/tmp/slow-minicap''],
            props = Inl (ErrDevice ''offline''), push_errors = [], push_calls = []\<rparr>)))) = Running"
proof -
  let ?c = "NewSTFCapturer \<lparr>remote_files = [''/data/local/tmp/slow-minicap''],
            props = Inl (ErrDevice ''offline''), push_errors = [], push_calls = []\<rparr>"
  let ?bad = "\<lambda>n::nat. RunFails (ErrDevice ''busy'')"
  let ?good = "\<lambda>n::nat. if n < 2 then RunFails (ErrDevice ''busy'')
               else Info \<lparr>Id = 0, Width = 1080, Height = 1920, Rotation = 0\<rparr>"
  have bad: "fst (minicapDaemon_Start ?bad ?c) =
     Some (ErrWrap (ErrWrap (ErrDevice ''busy'') ''run minicap -i'') ''prepare minicap'')"
    by code_simp
  have good: "fst (minicapDaemon_Start ?good ?c) = None"
    by code_simp
  have slow: "isRemoteExists (dev ?c) ''/data/local/tmp/slow-minicap''"
    by (simp add: isRemoteExists_def NewSTFCapturer_def)
  have fw: "fst (jpgTcpSucker_Start (\<lambda>spec. Inr 7000)
              ((sucker ?c)\<lparr>forwardSpec := (FProtocolTcp, ''2016'')\<rparr>)) = None"
    by (simp add: jpgTcpSucker_Start_def safeDo_def NewSTFCapturer_def)
  show ?thesis
    using bad good slow fw
      coordinator_start [of ?bad ?c
        "ErrWrap (ErrWrap (ErrDevice ''busy'') ''run minicap -i'') ''prepare minicap''"
        "\<lambda>spec. Inr 7000"]
      coordinator_start [of ?good ?c _ "\<lambda>spec. Inr 7000"]
    by (simp add: Let_def minicapDaemon_Start_sucker) (simp add: NewSTFCapturer_def)
qed

lemma wrapMultiError_two:
  "wrapMultiError [a, b] =
     (case (a, b) of
        (None, None) \<Rightarrow> None
      | (Some x, None) \<Rightarrow> Some (ErrMulti [x])
      | (None, Some y) \<Rightarrow> Some (ErrMulti [y])
      | (Some x, Some y) \<Rightarrow> Some (ErrMulti [x, y]))"
  by (simp add: wrapMultiError_def split: option.splits)

lemma minicapDaemon_Stop_returns:
  "minicapDaemon_Stop c = Returns (e1, c1) \<Longrightarrow>
   sucker c1 = sucker c \<and> mstops c1 = mstops c + 1"
  by (auto simp: minicapDaemon_Stop_def safeDo_def Wait_def send_quit_def Let_def
      split: if_splits option.splits call.splits)

lemma jpgTcpSucker_Stop_returns:
  "jpgTcpSucker_Stop k = Returns (e2, k2) \<Longrightarrow> rstops k2 = rstops k + 1"
  by (auto simp: jpgTcpSucker_Stop_def safeDo_def Wait_def send_quit_def Let_def
      split: if_splits option.splits call.splits task.splits)

lemma minicapDaemon_Stop_ready:
  assumes "mstarted c" and "mquitC c = Some n" and "terminal (sup c) = None \<or> n = 0"
  shows "\<exists>e1 c1. minicapDaemon_Stop c = Returns (e1, c1)"
proof -
  have t: "terminal (loop_step QuitC s) \<noteq> None" for s
    by (simp add: loop_step_def loop_return_def killMinicap_def)
  show ?thesis
    using assms t [of "sup c"]
    by (cases "terminal (sup c)"; cases "terminal (loop_step QuitC (sup c))")
       (auto simp: minicapDaemon_Stop_def safeDo_def Wait_def send_quit_def Let_def)
qed

lemma jpgTcpSucker_Stop_ready:
  assumes "rtask k \<noteq> NoTask" and "rquitC k = Some n" and "rtask k = Running \<or> n = 0"
  shows "\<exists>e2 k2. jpgTcpSucker_Stop k = Returns (e2, k2)"
  using assms
  by (cases "rtask k")
     (auto simp: jpgTcpSucker_Stop_def safeDo_def Wait_def send_quit_def Let_def)

text \<open>
  A second \<open>Stop\<close> of the coordinator, after a control loop that had ended by itself and
  a first \<open>Stop\<close>, never returns: the first signal still fills the buffer of \<open>quitC\<close>.
\<close>

lemma second_Stop_blocks:
  assumes "mstarted c" and "\<not> mbusy c" and "terminal (sup c) = Some r" and "mquitC c = Some 0"
    and "STFCapturer_Stop c = Returns (e, c')"
  shows "STFCapturer_Stop c' = Blocks"
  using assms
  by (auto simp: STFCapturer_Stop_def minicapDaemon_Stop_def safeDo_def Wait_def
      send_quit_def Let_def split: call.splits prod.splits)

text \<open>
  C10. Whenever the supervisor's \<open>Stop\<close> returns, with an error or without, the
  coordinator's \<open>Stop\<close> calls the reader's \<open>Stop\<close> next and, when that returns too,
  returns \<open>wrapMultiError\<close> of the two results: nil exactly when both are nil, and
  otherwise an error that holds every error either of them returned. Both do return
  when each component has a background task and its \<open>quitC\<close> can take the signal: the task
  still runs, or the buffer of the channel is empty.
\<close>

theorem coordinator_stop:
  "(mstarted c \<and> mquitC c = Some n \<and> (terminal (sup c) = None \<or> n = 0) \<and>
    rtask (sucker c) \<noteq> NoTask \<and> rquitC (sucker c) = Some n' \<and>
    (rtask (sucker c) = Running \<or> n' = 0) \<longrightarrow>
      (\<exists>e1 c1 e2 k2.
         minicapDaemon_Stop c = Returns (e1, c1) \<and>
         jpgTcpSucker_Stop (sucker c) = Returns (e2, k2) \<and>
         STFCapturer_Stop c = Returns (wrapMultiError [e1, e2], c1\<lparr>sucker := k2\<rparr>) \<and>
         mstops c1 = mstops c + 1 \<and> rstops k2 = rstops (sucker c) + 1)) \<and>
   (minicapDaemon_Stop c = Returns (a, ca) \<longrightarrow>
      STFCapturer_Stop c =
        (case jpgTcpSucker_Stop (sucker c) of
           Blocks \<Rightarrow> Blocks
         | Returns (b, kb) \<Rightarrow> Returns (wrapMultiError [a, b], ca\<lparr>sucker := kb\<rparr>))) \<and>
   (minicapDaemon_Stop c = Returns (a, ca) \<and> jpgTcpSucker_Stop (sucker c) = Returns (b, kb) \<longrightarrow>
      (\<exists>e c'. STFCapturer_Stop c = Returns (e, c') \<and>
         mstops c' = mstops c + 1 \<and> rstops (sucker c') = rstops (sucker c) + 1 \<and>
         ((e = None) = (a = None \<and> b = None)) \<and>
         (\<forall>x. a = Some x \<or> b = Some x \<longrightarrow>
            (\<exists>es. e = Some (ErrMulti es) \<and> x \<in> set es))))"
proof (intro conjI impI)
  assume h: "mstarted c \<and> mquitC c = Some n \<and> (terminal (sup c) = None \<or> n = 0) \<and>
    rtask (sucker c) \<noteq> NoTask \<and> rquitC (sucker c) = Some n' \<and>
    (rtask (sucker c) = Running \<or> n' = 0)"
  obtain e1 c1 where d: "minicapDaemon_Stop c = Returns (e1, c1)"
    using minicapDaemon_Stop_ready [of c n] h by blast
  obtain e2 k2 where r: "jpgTcpSucker_Stop (sucker c) = Returns (e2, k2)"
    using jpgTcpSucker_Stop_ready [of "sucker c" n'] h by blast
  note c1 = minicapDaemon_Stop_returns [OF d]
  note k2 = jpgTcpSucker_Stop_returns [OF r]
  have "STFCapturer_Stop c = Returns (wrapMultiError [e1, e2], c1\<lparr>sucker := k2\<rparr>)"
    using d r c1 by (simp add: STFCapturer_Stop_def)
  with d r c1 k2 show "\<exists>e1 c1 e2 k2.
         minicapDaemon_Stop c = Returns (e1, c1) \<and>
         jpgTcpSucker_Stop (sucker c) = Returns (e2, k2) \<and>
         STFCapturer_Stop c = Returns (wrapMultiError [e1, e2], c1\<lparr>sucker := k2\<rparr>) \<and>
         mstops c1 = mstops c + 1 \<and> rstops k2 = rstops (sucker c) + 1"
    by blast
next
  assume d: "minicapDaemon_Stop c = Returns (a, ca)"
  note ca = minicapDaemon_Stop_returns [OF d]
  show "STFCapturer_Stop c =
        (case jpgTcpSucker_Stop (sucker c) of
           Blocks \<Rightarrow> Blocks
         | Returns (b, kb) \<Rightarrow> Returns (wrapMultiError [a, b], ca\<lparr>sucker := kb\<rparr>))"
    using d ca by (simp add: STFCapturer_Stop_def split: call.splits)
next
  assume dr: "minicapDaemon_Stop c = Returns (a, ca) \<and>
    jpgTcpSucker_Stop (sucker c) = Returns (b, kb)"
  then have d: "minicapDaemon_Stop c = Returns (a, ca)"
    and r: "jpgTcpSucker_Stop (sucker c) = Returns (b, kb)"
    by simp_all
  note ca = minicapDaemon_Stop_returns [OF d]
  note kb = jpgTcpSucker_Stop_returns [OF r]
  have s: "STFCapturer_Stop c = Returns (wrapMultiError [a, b], ca\<lparr>sucker := kb\<rparr>)"
    using d r ca by (simp add: STFCapturer_Stop_def)
  have n: "(wrapMultiError [a, b] = None) = (a = None \<and> b = None)"
    by (simp add: wrapMultiError_two split: option.splits)
  have i: "\<forall>x. a = Some x \<or> b = Some x \<longrightarrow>
      (\<exists>es. wrapMultiError [a, b] = Some (ErrMulti es) \<and> x \<in> set es)"
    by (auto simp: wrapMultiError_two split: option.splits)
  show "\<exists>e c'. STFCapturer_Stop c = Returns (e, c') \<and>
         mstops c' = mstops c + 1 \<and> rstops (sucker c') = rstops (sucker c) + 1 \<and>
         ((e = None) = (a = None \<and> b = None)) \<and>
         (\<forall>x. a = Some x \<or> b = Some x \<longrightarrow>
            (\<exists>es. e = Some (ErrMulti es) \<and> x \<in> set es))"
    using s n i ca kb by simp
qed


theorem coordinator_stop_witness:
  "(case STFCapturer_Stop
      ((NewSTFCapturer \<lparr>remote_files = [], props = Inl (ErrDevice ''offline''),
          push_errors = [], push_calls = []\<rparr>)
       \<lparr>sup := (loop_enter newMinicapDaemon)
                 \<lparr>terminal := Some (Some (ErrWrap (ErrNew ''minicap quit'') ''minicap''))\<rparr>,
        mstarted := True, mquitC := Some 0,
        sucker := \<lparr>port = 7000, forwardSpec = (FProtocolAbstract, ''minicap''),
                   rtask = Finished (Some (ErrWrap (ErrNew ''jpgTcpSucker reach max retry(10)'')
                                             ''readFromTcp'')),
                   rbusy = False, rstops = 0, rquitC = Some 0\<rparr>\<rparr>) of
      Blocks \<Rightarrow> False
    | Returns (e, c') \<Rightarrow>
        e = Some (ErrMulti [ErrWrap (ErrNew ''minicap quit'') ''minicap'',
                            ErrWrap (ErrNew ''jpgTcpSucker reach max retry(10)'') ''readFromTcp'']) \<and>
        mstops c' = 1 \<and> rstops (sucker c') = 1) \<and>
   (case STFCapturer_Stop
      ((NewSTFCapturer \<lparr>remote_files = [], props = Inl (ErrDevice ''offline''),
          push_errors = [], push_calls = []\<rparr>)
       \<lparr>sup := loop_enter newMinicapDaemon,
        mstarted := True, mquitC := Some 0,
        sucker := \<lparr>port = 7000, forwardSpec = (FProtocolAbstract, ''minicap''),
                   rtask = Running, rbusy = False, rstops = 0, rquitC = Some 0\<rparr>\<rparr>) of
      Blocks \<Rightarrow> False
    | Returns (e, c') \<Rightarrow> e = None \<and> mstops c' = 1 \<and> rstops (sucker c') = 1)"
proof -
  define c where "c = (NewSTFCapturer \<lparr>remote_files = [], props = Inl (ErrDevice ''offline''),
          push_errors = [], push_calls = []\<rparr>)
       \<lparr>sup := (loop_enter newMinicapDaemon)
                 \<lparr>terminal := Some (Some (ErrWrap (ErrNew ''minicap quit'') ''minicap''))\<rparr>,
        mstarted := True, mquitC := Some 0,
        sucker := \<lparr>port = 7000, forwardSpec = (FProtocolAbstract, ''minicap''),
                   rtask = Finished (Some (ErrWrap (ErrNew ''jpgTcpSucker reach max retry(10)'')
                                             ''readFromTcp'')),
                   rbusy = False, rstops = 0, rquitC = Some 0\<rparr>\<rparr>"
  define r where "r = (NewSTFCapturer \<lparr>remote_files = [], props = Inl (ErrDevice ''offline''),
          push_errors = [], push_calls = []\<rparr>)
       \<lparr>sup := loop_enter newMinicapDaemon,
        mstarted := True, mquitC := Some 0,
        sucker := \<lparr>port = 7000, forwardSpec = (FProtocolAbstract, ''minicap''),
                   rtask = Running, rbusy = False, rstops = 0, rquitC = Some 0\<rparr>\<rparr>"
  have dc: "minicapDaemon_Stop c =
      Returns (Some (ErrWrap (ErrNew ''minicap quit'') ''minicap''), c\<lparr>mstops := 1, mquitC := Some 1\<rparr>)"
    by (simp add: c_def minicapDaemon_Stop_def safeDo_def Wait_def send_quit_def
        NewSTFCapturer_def Let_def)
  have rc: "jpgTcpSucker_Stop (sucker c) =
      Returns (Some (ErrWrap (ErrNew ''jpgTcpSucker reach max retry(10)'') ''readFromTcp''),
               (sucker c)\<lparr>rstops := 1, rquitC := Some 1\<rparr>)"
    by (simp add: c_def jpgTcpSucker_Stop_def safeDo_def Wait_def send_quit_def Let_def)
  have cnt: "mstops c = 0" "rstops (sucker c) = 0" "mstops r = 0" "rstops (sucker r) = 0"
    by (simp_all add: c_def r_def NewSTFCapturer_def)
  have hc: "mstarted c \<and> mquitC c = Some 0 \<and> (terminal (sup c) = None \<or> (0::nat) = 0) \<and>
    rtask (sucker c) \<noteq> NoTask \<and> rquitC (sucker c) = Some 0 \<and>
    (rtask (sucker c) = Running \<or> (0::nat) = 0)"
    by (simp add: c_def)
  have first: "(case STFCapturer_Stop c of
      Blocks \<Rightarrow> False
    | Returns (e, c') \<Rightarrow>
        e = Some (ErrMulti [ErrWrap (ErrNew ''minicap quit'') ''minicap'',
                            ErrWrap (ErrNew ''jpgTcpSucker reach max retry(10)'') ''readFromTcp'']) \<and>
        mstops c' = 1 \<and> rstops (sucker c') = 1)"
    using coordinator_stop [of c 0 0
        "Some (ErrWrap (ErrNew ''minicap quit'') ''minicap'')" "c\<lparr>mstops := 1, mquitC := Some 1\<rparr>"
        "Some (ErrWrap (ErrNew ''jpgTcpSucker reach max retry(10)'') ''readFromTcp'')"
        "(sucker c)\<lparr>rstops := 1, rquitC := Some 1\<rparr>"] hc dc rc cnt
    by (simp add: wrapMultiError_def)
  have dr: "minicapDaemon_Stop r = Returns (None, r\<lparr>mstops := 1, sup := loop_step QuitC (sup r)\<rparr>)"
    by (simp add: r_def minicapDaemon_Stop_def safeDo_def Wait_def send_quit_def
        NewSTFCapturer_def loop_enter_def loop_step_def loop_return_def killMinicap_def
        GoFunc_runScreenCapture_def Wrap_def Let_def)
  have rr: "jpgTcpSucker_Stop (sucker r) =
      Returns (None, (sucker r)\<lparr>rstops := 1, rtask := Finished None\<rparr>)"
    by (simp add: r_def jpgTcpSucker_Stop_def safeDo_def Wait_def send_quit_def Wrap_def Let_def)
  have hr: "mstarted r \<and> mquitC r = Some 0 \<and> (terminal (sup r) = None \<or> (0::nat) = 0) \<and>
    rtask (sucker r) \<noteq> NoTask \<and> rquitC (sucker r) = Some 0 \<and>
    (rtask (sucker r) = Running \<or> (0::nat) = 0)"
    by (simp add: r_def loop_enter_def killMinicap_def GoFunc_runScreenCapture_def)
  have second: "(case STFCapturer_Stop r of
      Blocks \<Rightarrow> False
    | Returns (e, c') \<Rightarrow> e = None \<and> mstops c' = 1 \<and> rstops (sucker c') = 1)"
    using coordinator_stop [of r 0 0 None "r\<lparr>mstops := 1, sup := loop_step QuitC (sup r)\<rparr>"
        None "(sucker r)\<lparr>rstops := 1, rtask := Finished None\<rparr>"] hr dr rr cnt
    by (simp add: wrapMultiError_def)
  from first second show ?thesis
    unfolding c_def r_def by simp
qed

end
